theory Spec2Isabelle
  imports Complex_Main "HOL-Library.Word" "HOL-Library.AList" "HOL-Library.Code_Target_Nat"
begin

unbundle bit_operations_syntax

section \<open>Values of the JavaScript runtime\<close>

text \<open>
  The handlers work on untyped data: the parsed request body, the query parameters and
  the rows of the table are JavaScript values. A JavaScript string is the list of its
  UTF-16 code units, so a string with an unpaired surrogate is a value like any other. A
  number is an exact rational or one of the three special values. Objects keep their keys
  in insertion order. The names of properties, of query parameters, of methods and of
  headers are only ever compared with the literal names of the code and are written as
  plain texts.
\<close>

type_synonym jstring = "16 word list"

text \<open>The string literal with the given (Latin-1) text.\<close>

definition js :: "string \<Rightarrow> jstring" where
  "js s = map (\<lambda>c. of_nat (of_char c)) s"

datatype jsnum = Fin rat | NaN | PosInf | NegInf

datatype jsval =
    JUndefined
  | JNull
  | JBool bool
  | JNum jsnum
  | JStr jstring
  | JArr "jsval list"
  | JObj "(string \<times> jsval) list"

type_synonym obj = "(string \<times> jsval) list"

text \<open>What \<open>if (v)\<close> and \<open>!v\<close> test.\<close>

fun truthy :: "jsval \<Rightarrow> bool" where
  "truthy JUndefined = False"
| "truthy JNull = False"
| "truthy (JBool b) = b"
| "truthy (JNum (Fin r)) = (r \<noteq> 0)"
| "truthy (JNum NaN) = False"
| "truthy (JNum PosInf) = True"
| "truthy (JNum NegInf) = True"
| "truthy (JStr s) = (s \<noteq> [])"
| "truthy (JArr xs) = True"
| "truthy (JObj kvs) = True"

text \<open>Property access \<open>item.k\<close> on an object: a missing key reads as \<open>undefined\<close>.\<close>

definition fld :: "obj \<Rightarrow> string \<Rightarrow> jsval" where
  "fld item k = (case map_of item k of None \<Rightarrow> JUndefined | Some v \<Rightarrow> v)"

text \<open>
  Everything the code can throw. The handlers only ever inspect the \<open>code\<close> of a
  failed conditional update; all other errors end in the same \<open>catch\<close> block.
\<close>

datatype error =
    TypeError
  | SyntaxError
  | CryptoError
  | ValidationException
  | ConditionalCheckFailedException

section \<open>Buffers, text and hex\<close>

type_synonym byte = "8 word"
type_synonym buffer = "byte list"

subsection \<open>Text to bytes and back\<close>

text \<open>
  \<open>cipher.update(text)\<close> encodes the text in UTF-8: a surrogate pair becomes the four
  bytes of its code point, and a surrogate without its partner becomes the three bytes of
  U+FFFD.
\<close>

definition is_high :: "nat \<Rightarrow> bool" where
  "is_high u \<longleftrightarrow> 0xD800 \<le> u \<and> u < 0xDC00"

definition is_low :: "nat \<Rightarrow> bool" where
  "is_low u \<longleftrightarrow> 0xDC00 \<le> u \<and> u < 0xE000"

definition utf8_of_code_point :: "nat \<Rightarrow> buffer" where
  "utf8_of_code_point cp =
     (if cp < 0x80 then [of_nat cp]
      else if cp < 0x800 then [of_nat (0xC0 + cp div 64), of_nat (0x80 + cp mod 64)]
      else if cp < 0x10000 then
        [of_nat (0xE0 + cp div 4096), of_nat (0x80 + cp div 64 mod 64), of_nat (0x80 + cp mod 64)]
      else
        [of_nat (0xF0 + cp div 262144), of_nat (0x80 + cp div 4096 mod 64),
         of_nat (0x80 + cp div 64 mod 64), of_nat (0x80 + cp mod 64)])"

definition replacement :: buffer where
  "replacement = [0xEF, 0xBF, 0xBD]"

fun utf8_encode :: "jstring \<Rightarrow> buffer" where
  "utf8_encode [] = []"
| "utf8_encode [c] =
     (if is_high (unat c) \<or> is_low (unat c) then replacement else utf8_of_code_point (unat c))"
| "utf8_encode (c # d # cs) =
     (if is_high (unat c) \<and> is_low (unat d)
      then utf8_of_code_point (0x10000 + (unat c - 0xD800) * 1024 + (unat d - 0xDC00)) @
           utf8_encode cs
      else if is_high (unat c) \<or> is_low (unat c) then replacement @ utf8_encode (d # cs)
      else utf8_of_code_point (unat c) @ utf8_encode (d # cs))"

text \<open>
  \<open>decrypted.toString()\<close> decodes UTF-8 and never throws: a byte that cannot start or
  continue a sequence ends the sequence read so far, which is replaced by U+FFFD, and
  decoding goes on from that byte. Overlong forms, surrogates and code points above
  U+10FFFF are refused through the bounds on the second byte.
\<close>

definition utf16_of_code_point :: "nat \<Rightarrow> jstring" where
  "utf16_of_code_point cp =
     (if cp < 0x10000 then [of_nat cp]
      else [of_nat (0xD800 + (cp - 0x10000) div 1024), of_nat (0xDC00 + (cp - 0x10000) mod 1024)])"

definition continues :: "nat \<Rightarrow> nat \<Rightarrow> byte \<Rightarrow> bool" where
  "continues lo hi b \<longleftrightarrow> lo \<le> unat b \<and> unat b \<le> hi"

fun utf8_decode :: "buffer \<Rightarrow> jstring" where
  "utf8_decode [] = []"
| "utf8_decode (b # bs) =
     (let x = unat b in
      if x < 0x80 then of_nat x # utf8_decode bs
      else if 0xC2 \<le> x \<and> x \<le> 0xDF then
        (case bs of
           [] \<Rightarrow> [0xFFFD]
         | b2 # r2 \<Rightarrow>
             if continues 0x80 0xBF b2
             then utf16_of_code_point ((x - 0xC0) * 64 + (unat b2 - 0x80)) @ utf8_decode r2
             else 0xFFFD # utf8_decode bs)
      else if 0xE0 \<le> x \<and> x \<le> 0xEF then
        (case bs of
           [] \<Rightarrow> [0xFFFD]
         | b2 # r2 \<Rightarrow>
             if continues (if x = 0xE0 then 0xA0 else 0x80) (if x = 0xED then 0x9F else 0xBF) b2
             then
               (case r2 of
                  [] \<Rightarrow> [0xFFFD]
                | b3 # r3 \<Rightarrow>
                    if continues 0x80 0xBF b3
                    then utf16_of_code_point
                           ((x - 0xE0) * 4096 + (unat b2 - 0x80) * 64 + (unat b3 - 0x80)) @
                         utf8_decode r3
                    else 0xFFFD # utf8_decode r2)
             else 0xFFFD # utf8_decode bs)
      else if 0xF0 \<le> x \<and> x \<le> 0xF4 then
        (case bs of
           [] \<Rightarrow> [0xFFFD]
         | b2 # r2 \<Rightarrow>
             if continues (if x = 0xF0 then 0x90 else 0x80) (if x = 0xF4 then 0x8F else 0xBF) b2
             then
               (case r2 of
                  [] \<Rightarrow> [0xFFFD]
                | b3 # r3 \<Rightarrow>
                    if continues 0x80 0xBF b3
                    then
                      (case r3 of
                         [] \<Rightarrow> [0xFFFD]
                       | b4 # r4 \<Rightarrow>
                           if continues 0x80 0xBF b4
                           then utf16_of_code_point
                                  ((x - 0xF0) * 262144 + (unat b2 - 0x80) * 4096 +
                                   (unat b3 - 0x80) * 64 + (unat b4 - 0x80)) @
                                utf8_decode r4
                           else 0xFFFD # utf8_decode r3)
                    else 0xFFFD # utf8_decode r2)
             else 0xFFFD # utf8_decode bs)
      else 0xFFFD # utf8_decode bs)"

declare utf8_decode.simps(2) [simp del]

subsection \<open>Hex\<close>

definition hexdigit :: "nat \<Rightarrow> 16 word" where
  "hexdigit n = (if n < 10 then of_nat (48 + n) else of_nat (87 + n))"

text \<open>
  The value of a hex digit. The decoder looks a code unit up by its low byte, in a table
  that knows the digits and the letters a to f in either case.
\<close>

definition unhex :: "16 word \<Rightarrow> nat option" where
  "unhex c = (let n = unat c mod 256 in
     if 48 \<le> n \<and> n \<le> 57 then Some (n - 48)
     else if 97 \<le> n \<and> n \<le> 102 then Some (n - 87)
     else if 65 \<le> n \<and> n \<le> 70 then Some (n - 55)
     else None)"

definition hex_of_byte :: "byte \<Rightarrow> jstring" where
  "hex_of_byte b = [hexdigit (unat b div 16), hexdigit (unat b mod 16)]"

text \<open>\<open>buf.toString('hex')\<close>: two lower-case digits for each byte.\<close>

definition to_hex :: "buffer \<Rightarrow> jstring" where
  "to_hex bs = concat (map hex_of_byte bs)"

text \<open>
  \<open>Buffer.from(s, 'hex')\<close>: pairs of hex digits are decoded from the left; decoding stops
  at the first pair that is not hexadecimal, and a trailing single character is dropped.
  It never throws on a string.
\<close>

fun from_hex :: "jstring \<Rightarrow> buffer" where
  "from_hex (a # b # rest) =
     (case (unhex a, unhex b) of
        (Some x, Some y) \<Rightarrow> of_nat (x * 16 + y) # from_hex rest
      | _ \<Rightarrow> [])"
| "from_hex _ = []"

subsection \<open>Splitting and joining\<close>

text \<open>\<open>text.split(c)\<close> with a one-character separator, and \<open>parts.join(c)\<close>.\<close>

fun split_acc :: "'a \<Rightarrow> 'a list \<Rightarrow> 'a list \<Rightarrow> 'a list list" where
  "split_acc c acc [] = [rev acc]"
| "split_acc c acc (x # xs) =
     (if x = c then rev acc # split_acc c [] xs else split_acc c (x # acc) xs)"

definition split :: "'a \<Rightarrow> 'a list \<Rightarrow> 'a list list" where
  "split c s = split_acc c [] s"

fun join :: "'a \<Rightarrow> 'a list list \<Rightarrow> 'a list" where
  "join c [] = []"
| "join c [p] = p"
| "join c (p # q # ps) = p @ c # join c (q # ps)"

definition colon :: "16 word" where
  "colon = 0x3A"

definition comma :: "16 word" where
  "comma = 0x2C"

section \<open>The cipher\<close>

text \<open>
  The block cipher itself, AES-256 under the process-wide \<open>ENCRYPTION_KEY\<close>, belongs to
  the \<open>crypto\<close> module and is a parameter here, as are the two conversions between
  numbers and their decimal text, which belong to the language runtime. The mode of
  operation (CBC), the padding (PKCS#7) and the checks that make \<open>createDecipheriv\<close>
  and \<open>decipher.final()\<close> throw are written out.
\<close>

record config =
  aes_enc :: "buffer \<Rightarrow> buffer"
  aes_dec :: "buffer \<Rightarrow> buffer"
  num_to_string :: "jsnum \<Rightarrow> jstring"
  string_to_num :: "jstring \<Rightarrow> jsnum"

definition IV_LENGTH :: nat where
  "IV_LENGTH = 16"

text \<open>
  What is assumed of AES: on 16-byte blocks it yields 16-byte blocks, and decryption
  under the key undoes encryption under the same key.
\<close>

definition block_cipher :: "config \<Rightarrow> bool" where
  "block_cipher cfg \<longleftrightarrow>
     (\<forall>b. length b = 16 \<longrightarrow> length (aes_enc cfg b) = 16 \<and> aes_dec cfg (aes_enc cfg b) = b)"

definition xor_block :: "buffer \<Rightarrow> buffer \<Rightarrow> buffer" where
  "xor_block a b = map2 (XOR) a b"

definition pkcs7_pad :: "buffer \<Rightarrow> buffer" where
  "pkcs7_pad d = (let n = 16 - length d mod 16 in d @ replicate n (of_nat n))"

definition pkcs7_unpad :: "buffer \<Rightarrow> error + buffer" where
  "pkcs7_unpad d =
     (if d = [] then Inl CryptoError
      else let n = unat (last d) in
        if n = 0 \<or> 16 < n then Inl CryptoError
        else if drop (length d - n) d = replicate n (last d)
          then Inr (take (length d - n) d)
          else Inl CryptoError)"

function cbc_encrypt :: "(buffer \<Rightarrow> buffer) \<Rightarrow> buffer \<Rightarrow> buffer \<Rightarrow> buffer" where
  "cbc_encrypt E prev d =
     (if d = [] then []
      else let c = E (xor_block (take 16 d) prev) in c @ cbc_encrypt E c (drop 16 d))"
  by pat_completeness auto
termination
  by (relation "measure (\<lambda>(E, prev, d). length d)") auto

declare cbc_encrypt.simps [simp del]

function cbc_decrypt :: "(buffer \<Rightarrow> buffer) \<Rightarrow> buffer \<Rightarrow> buffer \<Rightarrow> buffer" where
  "cbc_decrypt D prev d =
     (if d = [] then []
      else let c = take 16 d in xor_block (D c) prev @ cbc_decrypt D c (drop 16 d))"
  by pat_completeness auto
termination
  by (relation "measure (\<lambda>(D, prev, d). length d)") auto

declare cbc_decrypt.simps [simp del]

text \<open>
  \<open>encrypt\<close>: the initialization vector \<open>iv\<close> is the value \<open>crypto.randomBytes(IV_LENGTH)\<close>
  returned in this call. \<open>cipher.update\<close> throws a \<open>TypeError\<close> on anything that is
  neither a string nor a buffer.
\<close>

definition encrypt :: "config \<Rightarrow> buffer \<Rightarrow> jsval \<Rightarrow> error + jstring" where
  "encrypt cfg iv text =
     (case text of
        JStr s \<Rightarrow>
          Inr (to_hex iv @ colon #
               to_hex (cbc_encrypt (aes_enc cfg) iv (pkcs7_pad (utf8_encode s))))
      | _ \<Rightarrow> Inl TypeError)"

text \<open>
  \<open>decrypt\<close>: \<open>text.split\<close> throws when \<open>text\<close> is not a string; \<open>createDecipheriv\<close>
  throws when the decoded iv does not have 16 bytes; \<open>decipher.final()\<close> throws when the
  decoded ciphertext is empty or not a whole number of blocks, and when the padding of
  the last block is wrong.
\<close>

definition decrypt :: "config \<Rightarrow> jsval \<Rightarrow> error + jstring" where
  "decrypt cfg text =
     (case text of
        JStr s \<Rightarrow>
          (case split colon s of
             [] \<Rightarrow> Inl TypeError
           | p # ps \<Rightarrow>
               let iv = from_hex p;
                   encryptedText = from_hex (join colon ps)
               in if length iv \<noteq> IV_LENGTH then Inl CryptoError
                  else if encryptedText = [] \<or> length encryptedText mod 16 \<noteq> 0
                    then Inl CryptoError
                  else (case pkcs7_unpad (cbc_decrypt (aes_dec cfg) iv encryptedText) of
                          Inl e \<Rightarrow> Inl e
                        | Inr d \<Rightarrow> Inr (utf8_decode d)))
      | _ \<Rightarrow> Inl TypeError)"

section \<open>The record codec\<close>

text \<open>\<open>Number(s)\<close> never throws.\<close>

definition js_Number :: "config \<Rightarrow> jstring \<Rightarrow> jsval" where
  "js_Number cfg s = JNum (string_to_num cfg s)"

text \<open>
  \<open>String(v)\<close>. An object prints as \<open>[object Object]\<close> through the \<open>toString\<close> it
  inherits; an object parsed from JSON that has a key \<open>toString\<close> of its own hides the
  inherited one by a value that cannot be called, and the conversion throws a
  \<open>TypeError\<close>. An array prints its elements separated by commas, \<open>null\<close> as the empty
  text, and throws when an element does.
\<close>

fun js_String :: "config \<Rightarrow> jsval \<Rightarrow> error + jstring"
  and js_String_elements :: "config \<Rightarrow> jsval list \<Rightarrow> error + jstring list" where
  "js_String cfg JUndefined = Inr (js ''undefined'')"
| "js_String cfg JNull = Inr (js ''null'')"
| "js_String cfg (JBool b) = Inr (if b then js ''true'' else js ''false'')"
| "js_String cfg (JNum n) = Inr (num_to_string cfg n)"
| "js_String cfg (JStr s) = Inr s"
| "js_String cfg (JArr xs) =
     (case js_String_elements cfg xs of
        Inl e \<Rightarrow> Inl e
      | Inr parts \<Rightarrow> Inr (join comma parts))"
| "js_String cfg (JObj kvs) =
     (if map_of kvs ''toString'' = None then Inr (js ''[object Object]'') else Inl TypeError)"
| "js_String_elements cfg [] = Inr []"
| "js_String_elements cfg (x # xs) =
     (case (if x = JUndefined \<or> x = JNull then Inr [] else js_String cfg x) of
        Inl e \<Rightarrow> Inl e
      | Inr p \<Rightarrow>
          (case js_String_elements cfg xs of
             Inl e \<Rightarrow> Inl e
           | Inr ps \<Rightarrow> Inr (p # ps)))"

text \<open>
  \<open>decryptItem\<close>: \<open>None\<close> stands for a missing item (\<open>!item\<close>) and for the \<open>null\<close>
  returned for it. The three fields are decrypted in the order name, stock, price; the
  first failure is caught and the item is returned as it is. On success the spread
  \<open>{...item, name, stock, price}\<close> keeps every key of the item in its place.
\<close>

definition decryptItem :: "config \<Rightarrow> obj option \<Rightarrow> obj option" where
  "decryptItem cfg item =
     (case item of
        None \<Rightarrow> None
      | Some it \<Rightarrow>
          (case decrypt cfg (fld it ''name'') of
             Inl e \<Rightarrow> Some it
           | Inr n \<Rightarrow>
               (case decrypt cfg (fld it ''stock'') of
                  Inl e \<Rightarrow> Some it
                | Inr s \<Rightarrow>
                    (case decrypt cfg (fld it ''price'') of
                       Inl e \<Rightarrow> Some it
                     | Inr p \<Rightarrow>
                         Some (AList.update ''price'' (js_Number cfg p)
                                (AList.update ''stock'' (js_Number cfg s)
                                  (AList.update ''name'' (JStr n) it)))))))"

section \<open>The table\<close>

text \<open>
  The DynamoDB table, with partition key \<open>id\<close>, is the list of its items. The four
  calls of the document client are modelled by what they do to that list; the service
  is taken to be available.
\<close>

type_synonym table = "obj list"

definition dynamo_get :: "table \<Rightarrow> jstring \<Rightarrow> obj option" where
  "dynamo_get t k = find (\<lambda>item. fld item ''id'' = JStr k) t"

text \<open>\<open>put\<close> replaces the item that has the same key, if there is one.\<close>

definition dynamo_put :: "table \<Rightarrow> obj \<Rightarrow> table" where
  "dynamo_put t item = filter (\<lambda>x. fld x ''id'' \<noteq> fld item ''id'') t @ [item]"

definition dynamo_scan :: "table \<Rightarrow> obj list" where
  "dynamo_scan t = t"

text \<open>\<open>delete\<close> with \<open>ReturnValues: 'ALL_OLD'\<close>: the new table and the item removed.\<close>

definition dynamo_delete :: "table \<Rightarrow> jstring \<Rightarrow> table \<times> obj option" where
  "dynamo_delete t k = (filter (\<lambda>x. fld x ''id'' \<noteq> JStr k) t, dynamo_get t k)"

text \<open>
  The parameters of \<open>update\<close>. The array \<open>updateExpression\<close> holds one clause for each
  field; the clause \<open>'#name = :name'\<close> is \<open>Assign ''#name'' '':name''\<close>, and the
  expression sent is \<open>SET\<close> followed by the clauses.
\<close>

datatype clause = Assign string string

record update_spec =
  updateExpression :: "clause list"
  expressionAttributeNames :: "(string \<times> string) list"
  expressionAttributeValues :: "(string \<times> jsval) list"

datatype condition = Unconditional | Attribute_exists string

fun holds :: "condition \<Rightarrow> obj option \<Rightarrow> bool" where
  "holds Unconditional old = True"
| "holds (Attribute_exists a) None = False"
| "holds (Attribute_exists a) (Some item) = (map_of item a \<noteq> None)"

fun resolve :: "update_spec \<Rightarrow> clause list \<Rightarrow> error + (string \<times> jsval) list" where
  "resolve spec [] = Inr []"
| "resolve spec (Assign n v # cs) =
     (case (map_of (expressionAttributeNames spec) n,
            map_of (expressionAttributeValues spec) v) of
        (Some a, Some x) \<Rightarrow>
          (case resolve spec cs of Inl e \<Rightarrow> Inl e | Inr rs \<Rightarrow> Inr ((a, x) # rs))
      | _ \<Rightarrow> Inl ValidationException)"

fun assign_all :: "(string \<times> jsval) list \<Rightarrow> obj \<Rightarrow> obj" where
  "assign_all [] item = item"
| "assign_all ((a, x) # rs) item = assign_all rs (AList.update a x item)"

text \<open>
  \<open>update\<close> with \<open>ReturnValues: 'ALL_NEW'\<close>. Without a condition the service creates the
  item when the key is new; a condition that does not hold fails the call and writes
  nothing.
\<close>

definition dynamo_update ::
  "table \<Rightarrow> jstring \<Rightarrow> update_spec \<Rightarrow> condition \<Rightarrow> error + (table \<times> obj)" where
  "dynamo_update t k spec cond =
     (case resolve spec (updateExpression spec) of
        Inl e \<Rightarrow> Inl e
      | Inr rs \<Rightarrow>
          let old = dynamo_get t k in
          if \<not> holds cond old then Inl ConditionalCheckFailedException
          else
            let new = assign_all rs (case old of None \<Rightarrow> [(''id'', JStr k)] | Some item \<Rightarrow> item)
            in Inr (dynamo_put t new, new))"

section \<open>Requests and responses\<close>

text \<open>
  The \<open>body\<close> of a response is the value handed to \<open>JSON.stringify\<close>; a response
  without a \<open>headers\<close> property has \<open>headers = None\<close>.
\<close>

record response =
  statusCode :: nat
  headers :: "(string \<times> string) list option"
  body :: jsval

text \<open>
  The body of a request: \<open>NoBody\<close> is a null, undefined or empty \<open>event.body\<close>;
  \<open>Unparsable\<close> a text on which \<open>JSON.parse\<close> throws; \<open>Parsed v\<close> a text that
  \<open>JSON.parse\<close> turns into \<open>v\<close>.
\<close>

datatype reqbody = NoBody | Unparsable | Parsed jsval

record event =
  httpMethod :: string
  queryStringParameters :: "(string \<times> jstring) list option"
  body :: reqbody

text \<open>
  The values drawn while one request is served: the result of \<open>uuidv4()\<close> and the
  results of \<open>crypto.randomBytes(IV_LENGTH)\<close> in the calls of \<open>encrypt\<close> for the three
  fields.
\<close>

record draws =
  uniqueId :: jstring
  iv_name :: buffer
  iv_stock :: buffer
  iv_price :: buffer


text \<open>
  The two headers that the returns of the four branches spell out, and a response that
  carries them.
\<close>

definition cors :: "(string \<times> string) list" where
  "cors = [(''Access-Control-Allow-Origin'', ''*''),
           (''Access-Control-Allow-Headers'', ''Content-Type,Authorization'')]"

definition reply :: "nat \<Rightarrow> jsval \<Rightarrow> response" where
  "reply code b = \<lparr>statusCode = code, headers = Some cors, body = b\<rparr>"

definition error_body :: "string \<Rightarrow> jsval" where
  "error_body msg = JObj [(''error'', JStr (js msg))]"

definition json_of_item :: "obj option \<Rightarrow> jsval" where
  "json_of_item item = (case item of None \<Rightarrow> JNull | Some it \<Rightarrow> JObj it)"

text \<open>
  The destructuring \<open>const { name, stock, price } = v\<close> throws on \<open>null\<close> and
  \<open>undefined\<close>; on any other value that is not an object the three names read as
  \<open>undefined\<close>.
\<close>

fun destructure :: "jsval \<Rightarrow> error + obj" where
  "destructure JUndefined = Inl TypeError"
| "destructure JNull = Inl TypeError"
| "destructure (JObj kvs) = Inr kvs"
| "destructure v = Inr []"

text \<open>A query parameter, read from \<open>event.queryStringParameters\<close>.\<close>

definition param :: "(string \<times> jstring) list \<Rightarrow> string \<Rightarrow> jsval" where
  "param q k = (case map_of q k of None \<Rightarrow> JUndefined | Some s \<Rightarrow> JStr s)"

section \<open>The handler with encryption\<close>

text \<open>The expression \<open>encrypt(String(v))\<close>, in which either call may throw.\<close>

definition encrypt_String :: "config \<Rightarrow> buffer \<Rightarrow> jsval \<Rightarrow> error + jstring" where
  "encrypt_String cfg iv v =
     (case js_String cfg v of
        Inl e \<Rightarrow> Inl e
      | Inr s \<Rightarrow> encrypt cfg iv (JStr s))"

subsection \<open>POST\<close>

definition handle_post :: "config \<Rightarrow> draws \<Rightarrow> event \<Rightarrow> table \<Rightarrow> response \<times> table" where
  "handle_post cfg d ev t =
     (case event.body ev of
        Parsed v \<Rightarrow>
          (case destructure v of
             Inl e \<Rightarrow> (reply 500 (error_body ''Failed to create item''), t)
           | Inr b \<Rightarrow>
               let name = fld b ''name''; stock = fld b ''stock''; price = fld b ''price'' in
               if \<not> truthy name \<or> stock = JUndefined \<or> price = JUndefined
               then (reply 400 (error_body ''Missing required fields: name, stock, price''), t)
               else
                 (case encrypt cfg (iv_name d) name of
                    Inl e \<Rightarrow> (reply 500 (error_body ''Failed to create item''), t)
                  | Inr n \<Rightarrow>
                 (case encrypt_String cfg (iv_stock d) stock of
                    Inl e \<Rightarrow> (reply 500 (error_body ''Failed to create item''), t)
                  | Inr s \<Rightarrow>
                 (case encrypt_String cfg (iv_price d) price of
                    Inl e \<Rightarrow> (reply 500 (error_body ''Failed to create item''), t)
                  | Inr p \<Rightarrow>
                      let newItem = [(''id'', JStr (uniqueId d)), (''name'', JStr n),
                                     (''stock'', JStr s), (''price'', JStr p)]
                      in (reply 201 (JObj [(''message'', JStr (js ''Item created successfully'')),
                                           (''id'', JStr (uniqueId d)), (''name'', name),
                                           (''stock'', stock), (''price'', price)]),
                          dynamo_put t newItem)))))
      | _ \<Rightarrow> (reply 500 (error_body ''Failed to create item''), t))"

subsection \<open>GET\<close>

text \<open>
  \<open>s.includes(f)\<close>: on a string, whether \<open>f\<close> occurs in it; on an array, whether \<open>f\<close>
  is one of its elements; on anything else the call throws.
\<close>

fun occurs_in :: "'a list \<Rightarrow> 'a list \<Rightarrow> bool" where
  "occurs_in f [] = (f = [])"
| "occurs_in f (x # xs) = (take (length f) (x # xs) = f \<or> occurs_in f xs)"

definition js_includes :: "jsval \<Rightarrow> jstring \<Rightarrow> error + bool" where
  "js_includes v f =
     (case v of
        JStr s \<Rightarrow> Inr (occurs_in f s)
      | JArr xs \<Rightarrow> Inr (JStr f \<in> set xs)
      | _ \<Rightarrow> Inl TypeError)"

text \<open>\<open>items.filter(item => item.name.includes(name))\<close>, which stops at the first throw.\<close>

fun filter_by_name :: "jstring \<Rightarrow> obj option list \<Rightarrow> error + obj option list" where
  "filter_by_name f [] = Inr []"
| "filter_by_name f (None # items) = Inl TypeError"
| "filter_by_name f (Some it # items) =
     (case js_includes (fld it ''name'') f of
        Inl e \<Rightarrow> Inl e
      | Inr keep \<Rightarrow>
          (case filter_by_name f items of
             Inl e \<Rightarrow> Inl e
           | Inr rest \<Rightarrow> Inr (if keep then Some it # rest else rest)))"

definition handle_get :: "config \<Rightarrow> event \<Rightarrow> table \<Rightarrow> response \<times> table" where
  "handle_get cfg ev t =
     (let name = (case queryStringParameters ev of None \<Rightarrow> JUndefined | Some q \<Rightarrow> param q ''name'');
          items = map (\<lambda>item. decryptItem cfg (Some item)) (dynamo_scan t)
      in case name of
           JStr f \<Rightarrow>
             if f \<noteq> [] then
               (case filter_by_name f items of
                  Inl e \<Rightarrow> (reply 500 (error_body ''Failed to retrieve items''), t)
                | Inr kept \<Rightarrow> (reply 200 (JArr (map json_of_item kept)), t))
             else (reply 200 (JArr (map json_of_item items)), t)
         | _ \<Rightarrow> (reply 200 (JArr (map json_of_item items)), t))"

subsection \<open>PUT\<close>

definition empty_spec :: update_spec where
  "empty_spec = \<lparr>updateExpression = [], expressionAttributeNames = [],
                  expressionAttributeValues = []\<rparr>"

text \<open>The three statements of one \<open>if\<close> block: push the clause, name the attribute, bind the value.\<close>

definition add_clause :: "string \<Rightarrow> jsval \<Rightarrow> update_spec \<Rightarrow> update_spec" where
  "add_clause a x spec =
     \<lparr>updateExpression = updateExpression spec @ [Assign (CHR ''#'' # a) (CHR '':'' # a)],
      expressionAttributeNames = AList.update (CHR ''#'' # a) a (expressionAttributeNames spec),
      expressionAttributeValues = AList.update (CHR '':'' # a) x (expressionAttributeValues spec)\<rparr>"

text \<open>
  The assignment \<open>expressionAttributeValues[':a'] = ...\<close> that ends an \<open>if\<close> block: when
  the right-hand side throws, the builder is left.
\<close>

definition set_clause :: "string \<Rightarrow> error + jstring \<Rightarrow> update_spec \<Rightarrow> error + update_spec" where
  "set_clause a r spec =
     (case r of
        Inl e \<Rightarrow> Inl e
      | Inr c \<Rightarrow> Inr (add_clause a (JStr c) spec))"

text \<open>
  The partial update builder of the PUT branch: \<open>if (name)\<close>, then
  \<open>if (stock !== undefined)\<close>, then \<open>if (price !== undefined)\<close>.
\<close>

definition build_update :: "config \<Rightarrow> draws \<Rightarrow> obj \<Rightarrow> error + update_spec" where
  "build_update cfg d b =
     (let name = fld b ''name''; stock = fld b ''stock''; price = fld b ''price'' in
      case (if truthy name then set_clause ''name'' (encrypt cfg (iv_name d) name) empty_spec
            else Inr empty_spec) of
        Inl e \<Rightarrow> Inl e
      | Inr s1 \<Rightarrow>
          (case (if stock \<noteq> JUndefined
                 then set_clause ''stock'' (encrypt_String cfg (iv_stock d) stock) s1
                 else Inr s1) of
             Inl e \<Rightarrow> Inl e
           | Inr s2 \<Rightarrow>
               (if price \<noteq> JUndefined
                then set_clause ''price'' (encrypt_String cfg (iv_price d) price) s2
                else Inr s2)))"

definition handle_put :: "config \<Rightarrow> draws \<Rightarrow> event \<Rightarrow> table \<Rightarrow> response \<times> table" where
  "handle_put cfg d ev t =
     (case queryStringParameters ev of
        None \<Rightarrow> (reply 500 (error_body ''Failed to update item''), t)
      | Some q \<Rightarrow>
          (case param q ''id'' of
             JStr k \<Rightarrow>
               if k = [] then (reply 400 (error_body ''Missing required query parameter: id''), t)
               else
                 (case event.body ev of
                    NoBody \<Rightarrow> (reply 400 (error_body ''Request body is empty''), t)
                  | Unparsable \<Rightarrow> (reply 500 (error_body ''Failed to update item''), t)
                  | Parsed v \<Rightarrow>
                      (case destructure v of
                         Inl e \<Rightarrow> (reply 500 (error_body ''Failed to update item''), t)
                       | Inr b \<Rightarrow>
                           (case build_update cfg d b of
                              Inl e \<Rightarrow> (reply 500 (error_body ''Failed to update item''), t)
                            | Inr spec \<Rightarrow>
                                if updateExpression spec = []
                                then (reply 400 (error_body ''No fields to update''), t)
                                else
                                  (case dynamo_update t k spec (Attribute_exists ''id'') of
                                     Inl e \<Rightarrow>
                                       if e = ConditionalCheckFailedException
                                       then (reply 404 (error_body ''Item not found''), t)
                                       else (reply 500 (error_body ''Failed to update item''), t)
                                   | Inr (t', attrs) \<Rightarrow>
                                       (reply 200
                                          (JObj [(''message'', JStr (js ''Item updated successfully'')),
                                                 (''item'', json_of_item (decryptItem cfg (Some attrs)))]),
                                        t')))))
           | _ \<Rightarrow> (reply 400 (error_body ''Missing required query parameter: id''), t)))"

subsection \<open>DELETE\<close>

definition handle_delete :: "config \<Rightarrow> event \<Rightarrow> table \<Rightarrow> response \<times> table" where
  "handle_delete cfg ev t =
     (case queryStringParameters ev of
        None \<Rightarrow> (reply 500 (error_body ''Failed to delete item''), t)
      | Some q \<Rightarrow>
          (case param q ''id'' of
             JStr k \<Rightarrow>
               if k = [] then (reply 400 (error_body ''Missing required query parameter: id''), t)
               else
                 (case dynamo_delete t k of
                    (t', None) \<Rightarrow> (reply 404 (error_body ''Item not found''), t')
                  | (t', Some attrs) \<Rightarrow>
                      (reply 200
                         (JObj [(''message'', JStr (js ''Item deleted successfully'')),
                                (''deletedItem'', json_of_item (decryptItem cfg (Some attrs)))]),
                       t'))
           | _ \<Rightarrow> (reply 400 (error_body ''Missing required query parameter: id''), t)))"

subsection \<open>Dispatch on the method\<close>

definition handler :: "config \<Rightarrow> draws \<Rightarrow> event \<Rightarrow> table \<Rightarrow> response \<times> table" where
  "handler cfg d ev t =
     (if httpMethod ev = ''POST'' then handle_post cfg d ev t
      else if httpMethod ev = ''GET'' then handle_get cfg ev t
      else if httpMethod ev = ''PUT'' then handle_put cfg d ev t
      else if httpMethod ev = ''DELETE'' then handle_delete cfg ev t
      else (\<lparr>statusCode = 405, headers = None,
             body = error_body ''Method not allowed''\<rparr>, t))"

section \<open>The handler without encryption\<close>

text \<open>
  The file \<open>lambda/handler.ts\<close> holds the same four branches without the cipher. Its POST
  branch and the builder of its PUT branch test all three fields for truthiness.
\<close>

definition plain_handle_post :: "draws \<Rightarrow> event \<Rightarrow> table \<Rightarrow> response \<times> table" where
  "plain_handle_post d ev t =
     (case event.body ev of
        Parsed v \<Rightarrow>
          (case destructure v of
             Inl e \<Rightarrow> (reply 500 (error_body ''Failed to create item''), t)
           | Inr b \<Rightarrow>
               let name = fld b ''name''; stock = fld b ''stock''; price = fld b ''price'' in
               if \<not> truthy name \<or> \<not> truthy stock \<or> \<not> truthy price
               then (reply 400 (error_body ''Missing required fields: name, stock, price''), t)
               else
                 let newItem = [(''id'', JStr (uniqueId d)), (''name'', name),
                                (''stock'', stock), (''price'', price)]
                 in (reply 201 (JObj [(''message'', JStr (js ''Item created successfully'')),
                                      (''id'', JStr (uniqueId d)), (''name'', name),
                                      (''stock'', stock), (''price'', price)]),
                     dynamo_put t newItem))
      | _ \<Rightarrow> (reply 500 (error_body ''Failed to create item''), t))"

definition plain_build_update :: "obj \<Rightarrow> update_spec" where
  "plain_build_update b =
     (let name = fld b ''name''; stock = fld b ''stock''; price = fld b ''price'';
          s1 = (if truthy name then add_clause ''name'' name empty_spec else empty_spec);
          s2 = (if truthy stock then add_clause ''stock'' stock s1 else s1)
      in if truthy price then add_clause ''price'' price s2 else s2)"

section \<open>Vocabulary of the properties\<close>

text \<open>
  A body supplies a key when the key does not read as \<open>undefined\<close>: \<open>JSON.parse\<close> never
  yields \<open>undefined\<close> as the value of a key.
\<close>

definition supplied :: "obj \<Rightarrow> string \<Rightarrow> bool" where
  "supplied b a \<longleftrightarrow> fld b a \<noteq> JUndefined"

fun is_string :: "jsval \<Rightarrow> bool" where
  "is_string (JStr s) = True"
| "is_string v = False"

text \<open>
  The values on which \<open>String\<close> does not throw: no object with a key \<open>toString\<close> of its
  own, by itself or as an element of an array.
\<close>

fun stringable :: "jsval \<Rightarrow> bool" where
  "stringable (JObj kvs) = (map_of kvs ''toString'' = None)"
| "stringable (JArr xs) = list_all stringable xs"
| "stringable v = True"

text \<open>
  A string is well formed when every surrogate in it is half of a pair: a high surrogate
  followed by a low one. \<open>to_well_formed\<close> puts U+FFFD in the place of every other
  surrogate.
\<close>

fun well_formed :: "jstring \<Rightarrow> bool" where
  "well_formed [] = True"
| "well_formed [c] = (\<not> is_high (unat c) \<and> \<not> is_low (unat c))"
| "well_formed (c # d # cs) =
     (if is_high (unat c) then is_low (unat d) \<and> well_formed cs
      else \<not> is_low (unat c) \<and> well_formed (d # cs))"

fun to_well_formed :: "jstring \<Rightarrow> jstring" where
  "to_well_formed [] = []"
| "to_well_formed [c] = (if is_high (unat c) \<or> is_low (unat c) then [0xFFFD] else [c])"
| "to_well_formed (c # d # cs) =
     (if is_high (unat c) \<and> is_low (unat d) then c # d # to_well_formed cs
      else if is_high (unat c) \<or> is_low (unat c) then 0xFFFD # to_well_formed (d # cs)
      else c # to_well_formed (d # cs))"

text \<open>
  Whether a stored value is what \<open>encrypt\<close> returns for a well-formed text when it
  draws the iv.
\<close>

definition encrypted_as :: "config \<Rightarrow> buffer \<Rightarrow> jstring \<Rightarrow> jsval \<Rightarrow> bool" where
  "encrypted_as cfg iv text v \<longleftrightarrow>
     length iv = IV_LENGTH \<and> well_formed text \<and>
     (case encrypt cfg iv (JStr text) of Inl e \<Rightarrow> False | Inr c \<Rightarrow> v = JStr c)"

text \<open>Whether a value is a string that starts with the hex form of a 16-byte iv.\<close>

definition has_iv :: "jsval \<Rightarrow> bool" where
  "has_iv v = (case v of
      JStr s \<Rightarrow> length (from_hex (takeWhile (\<lambda>c. c \<noteq> colon) s)) = IV_LENGTH
    | _ \<Rightarrow> False)"

text \<open>Whether an item passes the name filter of Read.\<close>

definition name_includes :: "jstring \<Rightarrow> obj option \<Rightarrow> bool" where
  "name_includes f item =
     (case item of None \<Rightarrow> False | Some it \<Rightarrow> js_includes (fld it ''name'') f = Inr True)"

subsection \<open>The form of a row at rest\<close>

definition is_lower_hex :: "16 word \<Rightarrow> bool" where
  "is_lower_hex c =
     (let n = unat c in (48 \<le> n \<and> n \<le> 57) \<or> (97 \<le> n \<and> n \<le> 102))"

text \<open>
  \<open>hex(iv) + ":" + hex(ciphertext)\<close> for an iv of 16 bytes and a ciphertext of one or
  more blocks of 16 bytes: 32 lower-case hex digits, a colon, and a positive multiple of 32
  lower-case hex digits.
\<close>

definition cipher_form :: "jstring \<Rightarrow> bool" where
  "cipher_form s =
     (case split colon s of
        [a, b] \<Rightarrow> length a = 32 \<and> list_all is_lower_hex a \<and>
                  b \<noteq> [] \<and> length b mod 32 = 0 \<and> list_all is_lower_hex b
      | _ \<Rightarrow> False)"

fun cipher_field :: "jsval \<Rightarrow> bool" where
  "cipher_field (JStr s) = cipher_form s"
| "cipher_field v = False"



section \<open>A runtime to run the definitions on\<close>

text \<open>
  A stand-in for the parameters, used to evaluate the definitions on examples. The block
  cipher adds one to every byte. Whole numbers from 0 on print in decimal and are read
  back from decimal; every other number prints as \<open>NaN\<close> and every other text reads as
  \<open>NaN\<close>.
\<close>

function decimal :: "nat \<Rightarrow> jstring" where
  "decimal n = (if n < 10 then [of_nat (48 + n)]
                else decimal (n div 10) @ [of_nat (48 + n mod 10)])"
  by pat_completeness auto
termination
  by (relation "measure (\<lambda>n. n)") auto

declare decimal.simps [simp del]

definition is_digit :: "16 word \<Rightarrow> bool" where
  "is_digit c = (let n = unat c in 48 \<le> n \<and> n \<le> 57)"

definition sample_config :: config where
  "sample_config =
     \<lparr>aes_enc = map (\<lambda>b. b + 1),
      aes_dec = map (\<lambda>b. b - 1),
      num_to_string =
        (\<lambda>n. case n of
           Fin r \<Rightarrow> (if 0 \<le> r \<and> r = of_int \<lfloor>r\<rfloor> then decimal (nat \<lfloor>r\<rfloor>) else js ''NaN'')
         | _ \<Rightarrow> js ''NaN''),
      string_to_num =
        (\<lambda>s. if s \<noteq> [] \<and> list_all is_digit s
             then Fin (of_nat (foldl (\<lambda>a c. 10 * a + (unat c - 48)) 0 s))
             else NaN)\<rparr>"

definition sample_draws :: draws where
  "sample_draws =
     \<lparr>uniqueId = js ''id-1'',
      iv_name = replicate 16 1, iv_stock = replicate 16 2, iv_price = replicate 16 3\<rparr>"

text \<open>A row as the handler without encryption stores it.\<close>

definition sample_legacy_row :: obj where
  "sample_legacy_row = [(''id'', JStr (js ''id-0'')), (''name'', JStr (js ''apple'')),
                        (''stock'', JNum (Fin 5)), (''price'', JNum (Fin 5))]"

text \<open>A row whose name is not an output of \<open>encrypt\<close>: its iv part has two bytes.\<close>

definition sample_corrupt_row :: obj where
  "sample_corrupt_row = [(''id'', JStr (js ''id-7'')), (''name'', JStr (js ''00ff:abcd'')),
                         (''stock'', JStr (js ''x'')), (''price'', JStr (js ''y''))]"

text \<open>A Create request with \<open>stock: 0\<close>, and requests of the other three methods.\<close>

definition post_zero_stock :: event where
  "post_zero_stock = \<lparr>httpMethod = ''POST'', queryStringParameters = None,
     body = Parsed (JObj [(''name'', JStr (js ''apple'')), (''stock'', JNum (Fin 0)),
                          (''price'', JNum (Fin 5))])\<rparr>"

definition get_event :: "jstring \<Rightarrow> event" where
  "get_event f = \<lparr>httpMethod = ''GET'', queryStringParameters = Some [(''name'', f)],
                   body = NoBody\<rparr>"

definition put_event :: "jstring \<Rightarrow> jsval \<Rightarrow> event" where
  "put_event k v = \<lparr>httpMethod = ''PUT'', queryStringParameters = Some [(''id'', k)],
                     body = Parsed v\<rparr>"

definition delete_event :: "jstring \<Rightarrow> event" where
  "delete_event k = \<lparr>httpMethod = ''DELETE'', queryStringParameters = Some [(''id'', k)],
                      body = NoBody\<rparr>"

text \<open>The row that \<open>post_zero_stock\<close> stores under the sample runtime and draws.\<close>

definition sample_row :: obj where
  "sample_row =
     [(''id'', JStr (js ''id-1'')),
      (''name'', JStr (js ''01010101010101010101010101010101:6172726e650b0b0b0b0b0b0b0b0b0b0b'')),
      (''stock'', JStr (js ''02020202020202020202020202020202:330e0e0e0e0e0e0e0e0e0e0e0e0e0e0e'')),
      (''price'', JStr (js ''03030303030303030303030303030303:370d0d0d0d0d0d0d0d0d0d0d0d0d0d0d''))]"

definition sample_table :: table where
  "sample_table = [sample_row]"

text \<open>
  The same row with two characters that are not hex digits at the end of its name: the
  name is no longer in the form of a row at rest.
\<close>

definition sample_trailing_row :: obj where
  "sample_trailing_row =
     AList.update ''name''
       (JStr (js ''01010101010101010101010101010101:6172726e650b0b0b0b0b0b0b0b0b0b0bzz''))
       sample_row"

text \<open>
  A text with a letter, two characters outside ASCII and a surrogate pair; a string that
  is one unpaired high surrogate; a value on which \<open>String\<close> throws.
\<close>

definition sample_text :: jstring where
  "sample_text = [0x61, 0xE9, 0x20AC, 0xD83D, 0xDE00]"

definition lone_surrogate :: jstring where
  "lone_surrogate = [0xD800]"

definition unprintable :: jsval where
  "unprintable = JArr [JObj [(''toString'', JNull)]]"

section \<open>Text conversions\<close>

lemma js_empty_iff [simp]: "js s = [] \<longleftrightarrow> s = []"
  by (simp add: js_def)

lemma js_eq_iff [simp]: "js a = js b \<longleftrightarrow> a = b"
proof -
  have "inj (\<lambda>c. of_nat (of_char c) :: 16 word)"
  proof (rule injI)
    fix x y :: char
    assume "(of_nat (of_char x) :: 16 word) = of_nat (of_char y)"
    then have "unat (of_nat (of_char x) :: 16 word) = unat (of_nat (of_char y) :: 16 word)"
      by simp
    moreover have "of_char x < (65536 :: nat)" "of_char y < (65536 :: nat)"
      using nat_of_char_less_256 [of x] nat_of_char_less_256 [of y] by linarith+
    ultimately have "(of_char x :: nat) = of_char y" by (simp add: unat_of_nat)
    then show "x = y" by simp
  qed
  then show ?thesis by (simp add: js_def inj_map_eq_map)
qed

lemma unat_byte: "x < 256 \<Longrightarrow> unat (of_nat x :: byte) = x"
  by (simp add: unat_of_nat)

lemma dec3:
  assumes "0xE0 \<le> unat b1" and "unat b1 \<le> 0xEF"
    and "(if unat b1 = 0xE0 then 0xA0 else 0x80) \<le> unat b2"
    and "unat b2 \<le> (if unat b1 = 0xED then 0x9F else 0xBF)"
    and "0x80 \<le> unat b3" and "unat b3 \<le> 0xBF"
  shows "utf8_decode (b1 # b2 # b3 # tail) =
           utf16_of_code_point
             ((unat b1 - 0xE0) * 4096 + (unat b2 - 0x80) * 64 + (unat b3 - 0x80)) @
           utf8_decode tail"
  using assms by (simp add: utf8_decode.simps(2) [of b1] continues_def Let_def)

lemma split3:
  fixes cp :: nat
  obtains q1 q2 r where "cp = 4096 * q1 + 64 * q2 + r" and "q2 < 64" and "r < 64"
    and "cp div 4096 = q1" and "cp div 64 mod 64 = q2" and "cp mod 64 = r"
proof -
  have d: "cp div 4096 = cp div 64 div 64" by (simp add: div_mult2_eq)
  have "cp = 64 * (cp div 64) + cp mod 64" by simp
  moreover have "cp div 64 = 64 * (cp div 64 div 64) + cp div 64 mod 64" by simp
  ultimately have "cp = 4096 * (cp div 4096) + 64 * (cp div 64 mod 64) + cp mod 64"
    using d by linarith
  then show ?thesis using that [of "cp div 4096" "cp div 64 mod 64" "cp mod 64"] by simp
qed

lemma decode_3:
  assumes "0x800 \<le> cp" and "cp < 0x10000" and "\<not> is_high cp" and "\<not> is_low cp"
  shows "utf8_decode (utf8_of_code_point cp @ tail) = utf16_of_code_point cp @ utf8_decode tail"
proof -
  obtain q1 q2 r where s: "cp = 4096 * q1 + 64 * q2 + r" "q2 < 64" "r < 64"
      "cp div 4096 = q1" "cp div 64 mod 64 = q2" "cp mod 64 = r"
    by (rule split3)
  define a where "a = 0xE0 + q1"
  define b where "b = 0x80 + q2"
  define c where "c = 0x80 + r"
  have q1: "q1 < 16" using assms(2) s(1) by linarith
  have a: "a < 256" "0xE0 \<le> a" "a \<le> 0xEF" using q1 by (auto simp: a_def)
  have b: "b < 256" "0x80 \<le> b" "b \<le> 0xBF" using s(2) by (auto simp: b_def)
  have c: "c < 256" "0x80 \<le> c" "c \<le> 0xBF" using s(3) by (auto simp: c_def)
  have lo: "(if a = 0xE0 then 0xA0 else 0x80) \<le> b"
  proof (cases "q1 = 0")
    case True
    then have "32 \<le> q2" using assms(1) s(1,3) by linarith
    then show ?thesis using True by (simp add: a_def b_def)
  next
    case False
    then show ?thesis by (simp add: a_def b_def)
  qed
  have hi: "b \<le> (if a = 0xED then 0x9F else 0xBF)"
  proof (cases "q1 = 13")
    case True
    have "cp < 0xD800" using assms(3,4) True s(1,2,3) by (simp add: is_high_def is_low_def)
    then have "q2 < 32" using True s(1) by linarith
    then show ?thesis using True by (simp add: a_def b_def)
  next
    case False
    then show ?thesis using s(2) by (simp add: a_def b_def)
  qed
  have v: "(a - 0xE0) * 4096 + (b - 0x80) * 64 + (c - 0x80) = cp"
    using s(1) by (simp add: a_def b_def c_def)
  have e: "utf8_of_code_point cp = [of_nat a, of_nat b, of_nat c]"
    using assms s(4,5,6) by (simp add: utf8_of_code_point_def a_def b_def c_def)
  have "utf8_decode (of_nat a # of_nat b # of_nat c # tail) =
          utf16_of_code_point ((a - 0xE0) * 4096 + (b - 0x80) * 64 + (c - 0x80)) @
          utf8_decode tail"
    using dec3 [of "of_nat a" "of_nat b" "of_nat c" tail] a b c lo hi by (simp add: unat_byte)
  then show ?thesis using e v by simp
qed

lemma unat_unit: "x < 65536 \<Longrightarrow> unat (of_nat x :: 16 word) = x"
  by (simp add: unat_of_nat)

lemma dec4:
  assumes "0xF0 \<le> unat b1" and "unat b1 \<le> 0xF4"
    and "(if unat b1 = 0xF0 then 0x90 else 0x80) \<le> unat b2"
    and "unat b2 \<le> (if unat b1 = 0xF4 then 0x8F else 0xBF)"
    and "0x80 \<le> unat b3" and "unat b3 \<le> 0xBF" and "0x80 \<le> unat b4" and "unat b4 \<le> 0xBF"
  shows "utf8_decode (b1 # b2 # b3 # b4 # tail) =
           utf16_of_code_point
             ((unat b1 - 0xF0) * 262144 + (unat b2 - 0x80) * 4096 + (unat b3 - 0x80) * 64 +
              (unat b4 - 0x80)) @
           utf8_decode tail"
  using assms by (simp add: utf8_decode.simps(2) [of b1] continues_def Let_def)

lemma split4:
  fixes cp :: nat
  obtains q0 q1 q2 r where "cp = 262144 * q0 + 4096 * q1 + 64 * q2 + r"
    and "q1 < 64" and "q2 < 64" and "r < 64"
    and "cp div 262144 = q0" and "cp div 4096 mod 64 = q1" and "cp div 64 mod 64 = q2"
    and "cp mod 64 = r"
proof -
  have d1: "cp div 4096 = cp div 64 div 64" by (simp add: div_mult2_eq)
  have d2: "cp div 262144 = cp div 4096 div 64" by (simp add: div_mult2_eq)
  have "cp = 64 * (cp div 64) + cp mod 64" by simp
  moreover have "cp div 64 = 64 * (cp div 4096) + cp div 64 mod 64" using d1 by simp
  moreover have "cp div 4096 = 64 * (cp div 262144) + cp div 4096 mod 64" using d2 by simp
  ultimately have "cp = 262144 * (cp div 262144) + 4096 * (cp div 4096 mod 64) +
      64 * (cp div 64 mod 64) + cp mod 64"
    by linarith
  then show ?thesis
    using that [of "cp div 262144" "cp div 4096 mod 64" "cp div 64 mod 64" "cp mod 64"] by simp
qed

lemma decode_4:
  assumes "0x10000 \<le> cp" and "cp < 0x110000"
  shows "utf8_decode (utf8_of_code_point cp @ tail) = utf16_of_code_point cp @ utf8_decode tail"
proof -
  obtain q0 q1 q2 r where s: "cp = 262144 * q0 + 4096 * q1 + 64 * q2 + r"
      "q1 < 64" "q2 < 64" "r < 64"
      "cp div 262144 = q0" "cp div 4096 mod 64 = q1" "cp div 64 mod 64 = q2" "cp mod 64 = r"
    by (rule split4)
  define a where "a = 0xF0 + q0"
  define b where "b = 0x80 + q1"
  define c where "c = 0x80 + q2"
  define e where "e = 0x80 + r"
  have q0: "q0 \<le> 4" using assms(2) s(1) by linarith
  have a: "a < 256" "0xF0 \<le> a" "a \<le> 0xF4" using q0 by (auto simp: a_def)
  have b: "b < 256" "0x80 \<le> b" "b \<le> 0xBF" using s(2) by (auto simp: b_def)
  have c: "c < 256" "0x80 \<le> c" "c \<le> 0xBF" using s(3) by (auto simp: c_def)
  have e: "e < 256" "0x80 \<le> e" "e \<le> 0xBF" using s(4) by (auto simp: e_def)
  have lo: "(if a = 0xF0 then 0x90 else 0x80) \<le> b"
  proof (cases "q0 = 0")
    case True
    then have "16 \<le> q1" using assms(1) s(1,3,4) by linarith
    then show ?thesis using True by (simp add: a_def b_def)
  next
    case False
    then show ?thesis by (simp add: a_def b_def)
  qed
  have hi: "b \<le> (if a = 0xF4 then 0x8F else 0xBF)"
  proof (cases "q0 = 4")
    case True
    then have "q1 < 16" using assms(2) s(1) by linarith
    then show ?thesis using True by (simp add: a_def b_def)
  next
    case False
    then show ?thesis using s(2) by (simp add: a_def b_def)
  qed
  have v: "(a - 0xF0) * 262144 + (b - 0x80) * 4096 + (c - 0x80) * 64 + (e - 0x80) = cp"
    using s(1) by (simp add: a_def b_def c_def e_def)
  have enc: "utf8_of_code_point cp = [of_nat a, of_nat b, of_nat c, of_nat e]"
    using assms s(5,6,7,8) by (simp add: utf8_of_code_point_def a_def b_def c_def e_def)
  have "utf8_decode (of_nat a # of_nat b # of_nat c # of_nat e # tail) =
          utf16_of_code_point
            ((a - 0xF0) * 262144 + (b - 0x80) * 4096 + (c - 0x80) * 64 + (e - 0x80)) @
          utf8_decode tail"
    using dec4 [of "of_nat a" "of_nat b" "of_nat c" "of_nat e" tail] a b c e lo hi
    by (simp add: unat_byte)
  then show ?thesis using enc v by simp
qed

lemma utf16_single:
  assumes "\<not> is_high (unat c)" and "\<not> is_low (unat c)"
  shows "utf16_of_code_point (unat c) = [c]"
proof -
  have "unat c < 65536" using unsigned_less [of c, where ?'a = nat] by simp
  then show ?thesis by (simp add: utf16_of_code_point_def)
qed

lemma utf16_pair:
  assumes "is_high (unat c)" and "is_low (unat d)"
  shows "utf16_of_code_point (0x10000 + (unat c - 0xD800) * 1024 + (unat d - 0xDC00)) = [c, d]"
proof -
  define h where "h = unat c - 0xD800"
  define l where "l = unat d - 0xDC00"
  have h: "h < 1024" "unat c = 0xD800 + h" using assms(1) by (auto simp: is_high_def h_def)
  have l: "l < 1024" "unat d = 0xDC00 + l" using assms(2) by (auto simp: is_low_def l_def)
  have "(h * 1024 + l) div 1024 = h" "(h * 1024 + l) mod 1024 = l" using l(1) by auto
  then have "utf16_of_code_point (0x10000 + h * 1024 + l) =
      [of_nat (0xD800 + h), of_nat (0xDC00 + l)]"
    by (simp add: utf16_of_code_point_def)
  moreover have "of_nat (0xD800 + h) = c" using h(2) by (metis of_nat_unat ucast_id)
  moreover have "of_nat (0xDC00 + l) = d" using l(2) by (metis of_nat_unat ucast_id)
  ultimately show ?thesis by (simp add: h_def l_def)
qed

lemma decode_1:
  assumes "cp < 0x80"
  shows "utf8_decode (utf8_of_code_point cp @ tail) = utf16_of_code_point cp @ utf8_decode tail"
  using assms
  by (simp add: utf8_of_code_point_def utf16_of_code_point_def utf8_decode.simps(2) unat_byte)

lemma dec2:
  assumes "0xC2 \<le> unat b1" and "unat b1 \<le> 0xDF" and "0x80 \<le> unat b2" and "unat b2 \<le> 0xBF"
  shows "utf8_decode (b1 # b2 # tail) =
           utf16_of_code_point ((unat b1 - 0xC0) * 64 + (unat b2 - 0x80)) @ utf8_decode tail"
  using assms by (simp add: utf8_decode.simps(2) [of b1] continues_def Let_def)

lemma decode_2:
  assumes "0x80 \<le> cp" and "cp < 0x800"
  shows "utf8_decode (utf8_of_code_point cp @ tail) = utf16_of_code_point cp @ utf8_decode tail"
proof -
  define a where "a = 0xC0 + cp div 64"
  define b where "b = 0x80 + cp mod 64"
  have a: "a < 256" "0xC2 \<le> a" "a \<le> 0xDF" using assms by (auto simp: a_def)
  have b: "b < 256" "0x80 \<le> b" "b \<le> 0xBF" by (auto simp: b_def)
  have v: "(a - 0xC0) * 64 + (b - 0x80) = cp" by (simp add: a_def b_def)
  have e: "utf8_of_code_point cp = [of_nat a, of_nat b]"
    using assms by (simp add: utf8_of_code_point_def a_def b_def)
  have "utf8_decode (of_nat a # of_nat b # tail) =
          utf16_of_code_point ((a - 0xC0) * 64 + (b - 0x80)) @ utf8_decode tail"
    using dec2 [of "of_nat a" "of_nat b" tail] a b by (simp add: unat_byte)
  then show ?thesis using e v by simp
qed

lemma decode_code_point:
  assumes "cp < 0x110000" and "\<not> is_high cp" and "\<not> is_low cp"
  shows "utf8_decode (utf8_of_code_point cp @ tail) = utf16_of_code_point cp @ utf8_decode tail"
proof -
  consider "cp < 0x80" | "0x80 \<le> cp" "cp < 0x800" | "0x800 \<le> cp" "cp < 0x10000"
    | "0x10000 \<le> cp"
    by linarith
  then show ?thesis
  proof cases
    case 1 then show ?thesis by (rule decode_1)
  next
    case 2 then show ?thesis by (rule decode_2)
  next
    case 3 then show ?thesis using assms(2,3) by (intro decode_3)
  next
    case 4 then show ?thesis using assms(1) by (intro decode_4)
  qed
qed

lemma decode_replacement: "utf8_decode (replacement @ tail) = 0xFFFD # utf8_decode tail"
  using dec3 [of "0xEF" "0xBF" "0xBD" tail]
  by (simp add: replacement_def utf16_of_code_point_def)

lemma pair_code_point:
  assumes "is_high h" and "is_low l"
  shows "0x10000 + (h - 0xD800) * 1024 + (l - 0xDC00) < 0x110000"
    and "\<not> is_high (0x10000 + (h - 0xD800) * 1024 + (l - 0xDC00))"
    and "\<not> is_low (0x10000 + (h - 0xD800) * 1024 + (l - 0xDC00))"
  using assms by (auto simp: is_high_def is_low_def)

lemma unit_code_point: "unat (c :: 16 word) < 0x110000"
  using unsigned_less [of c, where ?'a = nat] by simp

lemma utf8_recode: "utf8_decode (utf8_encode s) = to_well_formed s"
proof (induction s rule: utf8_encode.induct)
  case 1
  show ?case by simp
next
  case (2 c)
  show ?case
    using decode_replacement [of "[]"]
      decode_code_point [OF unit_code_point, of c "[]"] utf16_single [of c]
    by auto
next
  case (3 c d cs)
  show ?case
  proof (cases "is_high (unat c) \<and> is_low (unat d)")
    case True
    then have hl: "is_high (unat c)" "is_low (unat d)" by simp_all
    show ?thesis
      using True 3(1) decode_code_point [OF pair_code_point [OF hl], of "utf8_encode cs"]
        utf16_pair [OF hl]
      by simp
  next
    case False
    show ?thesis
    proof (cases "is_high (unat c) \<or> is_low (unat c)")
      case True
      have "utf8_encode (c # d # cs) = replacement @ utf8_encode (d # cs)"
        using False True by auto
      moreover have "to_well_formed (c # d # cs) = 0xFFFD # to_well_formed (d # cs)"
        using False True by auto
      ultimately show ?thesis
        using 3(2) [OF False True] decode_replacement [of "utf8_encode (d # cs)"] by simp
    next
      case n: False
      have "utf8_encode (c # d # cs) = utf8_of_code_point (unat c) @ utf8_encode (d # cs)"
        using n by auto
      moreover have "to_well_formed (c # d # cs) = c # to_well_formed (d # cs)"
        using n by auto
      ultimately show ?thesis
        using 3(3) [OF False n] n
          decode_code_point [OF unit_code_point, of c "utf8_encode (d # cs)"] utf16_single [of c]
        by simp
    qed
  qed
qed

lemma to_well_formed_id: "well_formed s \<Longrightarrow> to_well_formed s = s"
  by (induction s rule: well_formed.induct) (auto split: if_splits)

lemma utf8_roundtrip: "well_formed s \<Longrightarrow> utf8_decode (utf8_encode s) = s"
  by (simp add: utf8_recode to_well_formed_id)

section \<open>Hex\<close>

lemma unat_hexdigit:
  assumes "n < 16"
  shows "unat (hexdigit n) = (if n < 10 then 48 + n else 87 + n)"
proof -
  have a: "unat (of_nat (48 + n) :: 16 word) = 48 + n" using assms by (intro unat_unit) simp
  have b: "unat (of_nat (87 + n) :: 16 word) = 87 + n" using assms by (intro unat_unit) simp
  show ?thesis
    unfolding hexdigit_def by (cases "n < 10") (simp_all only: a b if_True if_False)
qed

lemma unhex_hexdigit: "n < 16 \<Longrightarrow> unhex (hexdigit n) = Some n"
  using unat_hexdigit [of n] by (auto simp: unhex_def Let_def)

lemma unat_byte_div16: "unat (b::byte) div 16 < 16"
  using unsigned_less [of b, where ?'a = nat] by simp

lemma from_hex_byte: "from_hex (hex_of_byte b @ rest) = b # from_hex rest"
  by (simp add: hex_of_byte_def unhex_hexdigit unat_byte_div16)

lemma from_hex_to_hex_append: "from_hex (to_hex bs @ rest) = bs @ from_hex rest"
  by (induction bs) (simp_all add: to_hex_def from_hex_byte)

lemma from_hex_to_hex: "from_hex (to_hex bs) = bs"
  using from_hex_to_hex_append [of bs "[]"] by simp

section \<open>The cipher inverts itself\<close>

lemma split_acc_no_sep: "c \<notin> set h \<Longrightarrow> split_acc c acc h = [rev acc @ h]"
  by (induction h arbitrary: acc) auto

lemma split_acc_sep:
  "c \<notin> set h \<Longrightarrow> split_acc c acc (h @ c # t) = (rev acc @ h) # split_acc c [] t"
  by (induction h arbitrary: acc) auto

lemma split_two: "c \<notin> set h \<Longrightarrow> c \<notin> set t \<Longrightarrow> split c (h @ c # t) = [h, t]"
  by (simp add: split_def split_acc_sep split_acc_no_sep)

lemma unhex_colon: "unhex colon = None"
  by (simp add: unhex_def colon_def)

lemma hexdigit_not_colon: "n < 16 \<Longrightarrow> hexdigit n \<noteq> colon"
  using unhex_hexdigit [of n] unhex_colon by auto

lemma colon_notin_hex_of_byte: "colon \<notin> set (hex_of_byte b)"
  using hexdigit_not_colon [of "unat b div 16"] hexdigit_not_colon [of "unat b mod 16"]
  by (auto simp: hex_of_byte_def unat_byte_div16)

lemma colon_notin_to_hex: "colon \<notin> set (to_hex bs)"
  by (induction bs) (simp_all add: to_hex_def colon_notin_hex_of_byte)


lemma xor_block_cancel:
  "length a = length b \<Longrightarrow> xor_block (xor_block a b) b = a"
  unfolding xor_block_def
  by (induction a b rule: list_induct2) (simp_all add: xor.assoc)

lemma length_xor_block: "length (xor_block a b) = min (length a) (length b)"
  by (simp add: xor_block_def)

lemma take16_full: "d \<noteq> [] \<Longrightarrow> length d mod 16 = 0 \<Longrightarrow> length (take 16 d) = 16"
  by (cases "length d < 16") auto

lemma drop16_mod: "length d mod 16 = 0 \<Longrightarrow> length (drop 16 d) mod 16 = 0"
proof -
  assume a: "length d mod 16 = 0"
  have "(length d - 16) mod 16 = 0" using a by presburger
  then show ?thesis by simp
qed

lemma cbc_encrypt_Nil: "cbc_encrypt E prev [] = []"
  by (subst cbc_encrypt.simps) simp

lemma cbc_decrypt_Nil: "cbc_decrypt D prev [] = []"
  by (subst cbc_decrypt.simps) simp

lemma cbc_decrypt_step:
  assumes "length c = 16"
  shows "cbc_decrypt D prev (c @ rest) = xor_block (D c) prev @ cbc_decrypt D c rest"
proof -
  have "c \<noteq> []" using assms by auto
  then show ?thesis using assms by (subst cbc_decrypt.simps) (simp add: Let_def)
qed

lemma length_cbc_encrypt:
  "block_cipher cfg \<Longrightarrow> length prev = 16 \<Longrightarrow> length d mod 16 = 0 \<Longrightarrow>
   length (cbc_encrypt (aes_enc cfg) prev d) = length d"
proof (induction "aes_enc cfg" prev d rule: cbc_encrypt.induct)
  case (1 prev d)
  show ?case
  proof (cases "d = []")
    case True
    then show ?thesis by (simp add: cbc_encrypt_Nil cbc_decrypt_Nil)
  next
    case False
    let ?p = "xor_block (take 16 d) prev"
    let ?c = "aes_enc cfg ?p"
    have t: "length (take 16 d) = 16" using take16_full [OF False "1.prems"(3)] .
    have p: "length ?p = 16" using t "1.prems" by (simp add: length_xor_block)
    have c: "length ?c = 16" using p "1.prems"(1) by (simp add: block_cipher_def)
    have m: "length (drop 16 d) mod 16 = 0"
      using drop16_mod [OF "1.prems"(3)] .
    have "length (cbc_encrypt (aes_enc cfg) ?c (drop 16 d)) = length (drop 16 d)"
      using "1.hyps" [OF False refl "1.prems"(1) c m] .
    then show ?thesis
      using False c t by (subst cbc_encrypt.simps) (simp add: Let_def)
  qed
qed

lemma cbc_roundtrip:
  "block_cipher cfg \<Longrightarrow> length prev = 16 \<Longrightarrow> length d mod 16 = 0 \<Longrightarrow>
   cbc_decrypt (aes_dec cfg) prev (cbc_encrypt (aes_enc cfg) prev d) = d"
proof (induction "aes_enc cfg" prev d rule: cbc_encrypt.induct)
  case (1 prev d)
  show ?case
  proof (cases "d = []")
    case True
    then show ?thesis by (simp add: cbc_encrypt_Nil cbc_decrypt_Nil)
  next
    case False
    let ?p = "xor_block (take 16 d) prev"
    let ?c = "aes_enc cfg ?p"
    let ?rest = "cbc_encrypt (aes_enc cfg) ?c (drop 16 d)"
    have t: "length (take 16 d) = 16" using take16_full [OF False "1.prems"(3)] .
    have p: "length ?p = 16" using t "1.prems" by (simp add: length_xor_block)
    have c: "length ?c = 16" using p "1.prems"(1) by (simp add: block_cipher_def)
    have dc: "aes_dec cfg ?c = ?p" using p "1.prems"(1) by (simp add: block_cipher_def)
    have m: "length (drop 16 d) mod 16 = 0" using drop16_mod [OF "1.prems"(3)] .
    have ih: "cbc_decrypt (aes_dec cfg) ?c ?rest = drop 16 d"
      using "1.hyps" [OF False refl "1.prems"(1) c m] .
    have x: "xor_block ?p prev = take 16 d"
      using xor_block_cancel [of "take 16 d" prev] t "1.prems"(2) by simp
    have enc: "cbc_encrypt (aes_enc cfg) prev d = ?c @ ?rest"
      using False by (subst cbc_encrypt.simps) (simp add: Let_def)
    have "cbc_decrypt (aes_dec cfg) prev (?c @ ?rest) =
            xor_block (aes_dec cfg ?c) prev @ cbc_decrypt (aes_dec cfg) ?c ?rest"
      using cbc_decrypt_step [OF c] .
    also have "\<dots> = take 16 d @ drop 16 d" using dc x ih by simp
    finally show ?thesis using enc by simp
  qed
qed

lemma pad_length: "length (pkcs7_pad d) mod 16 = 0"
proof -
  have "(length d + (16 - length d mod 16)) mod 16 = 0" by presburger
  then show ?thesis by (simp add: pkcs7_pad_def Let_def)
qed

lemma pad_nonempty: "pkcs7_pad d \<noteq> []"
  by (simp add: pkcs7_pad_def Let_def)

lemma unpad_pad: "pkcs7_unpad (pkcs7_pad d) = Inr d"
proof -
  define n where "n = 16 - length d mod 16"
  have n: "0 < n" "n \<le> 16" by (simp_all add: n_def)
  have u: "unat (of_nat n :: byte) = n" using n by (simp add: unat_of_nat)
  have l: "last (d @ replicate n (of_nat n :: byte)) = of_nat n" using n by simp
  show ?thesis
    unfolding pkcs7_unpad_def pkcs7_pad_def Let_def n_def [symmetric]
    using n u l by simp
qed

lemma decrypt_serialized:
  assumes "length iv = IV_LENGTH" "ct \<noteq> []" "length ct mod 16 = 0"
  shows "decrypt cfg (JStr (to_hex iv @ colon # to_hex ct)) =
           (case pkcs7_unpad (cbc_decrypt (aes_dec cfg) iv ct) of
              Inl e \<Rightarrow> Inl e
            | Inr d \<Rightarrow> Inr (utf8_decode d))"
  using assms
  by (simp add: decrypt_def split_two colon_notin_to_hex from_hex_to_hex)

lemma decrypt_encrypt:
  assumes "block_cipher cfg" and "length iv = IV_LENGTH"
  shows "\<exists>c. encrypt cfg iv (JStr s) = Inr c \<and> decrypt cfg (JStr c) = Inr (to_well_formed s)"
proof -
  let ?padded = "pkcs7_pad (utf8_encode s)"
  let ?ct = "cbc_encrypt (aes_enc cfg) iv ?padded"
  have iv: "length iv = 16" using assms(2) by (simp add: IV_LENGTH_def)
  have len: "length ?ct = length ?padded"
    using length_cbc_encrypt [OF assms(1) iv pad_length] .
  have ne: "?ct \<noteq> []" using len pad_nonempty [of "utf8_encode s"] by auto
  have m: "length ?ct mod 16 = 0" using len pad_length [of "utf8_encode s"] by simp
  have dec: "cbc_decrypt (aes_dec cfg) iv ?ct = ?padded"
    using cbc_roundtrip [OF assms(1) iv pad_length] .
  have "decrypt cfg (JStr (to_hex iv @ colon # to_hex ?ct)) = Inr (to_well_formed s)"
    using decrypt_serialized [OF assms(2) ne m, of cfg] dec
    by (simp add: unpad_pad utf8_recode)
  then show ?thesis by (simp add: encrypt_def)
qed

lemma block_cipher_sample: "block_cipher sample_config"
  by (simp add: block_cipher_def sample_config_def comp_def)

lemma iv_name_sample: "length (iv_name sample_draws) = IV_LENGTH"
  by (simp add: sample_draws_def IV_LENGTH_def)

text \<open>
  Claim C1 says that decrypting what \<open>encrypt\<close> returns gives the string back, for every
  string. The text goes through UTF-8 on the way in and on the way out: a string that is
  one unpaired surrogate is encrypted as the bytes of U+FFFD and comes back as U+FFFD.
\<close>

theorem roundtrip_lone_surrogate_counterexample:
  "encrypt sample_config (iv_name sample_draws) (JStr lone_surrogate) =
     Inr (js ''01010101010101010101010101010101:efbfbd0d0d0d0d0d0d0d0d0d0d0d0d0d'') \<and>
   decrypt sample_config
     (JStr (js ''01010101010101010101010101010101:efbfbd0d0d0d0d0d0d0d0d0d0d0d0d0d'')) =
     Inr [0xFFFD] \<and>
   [0xFFFD] \<noteq> lone_surrogate"
  by code_simp

text \<open>The same happens under every block cipher and every iv.\<close>

lemma lone_surrogate_comes_back_replaced:
  assumes "block_cipher cfg" and "length iv = IV_LENGTH"
  shows "\<exists>c. encrypt cfg iv (JStr lone_surrogate) = Inr c \<and> decrypt cfg (JStr c) = Inr [0xFFFD]"
  using decrypt_encrypt [OF assms, of lone_surrogate]
  by (simp add: lone_surrogate_def is_high_def)

text \<open>
  Claim C1, amended. For every well-formed string, one in which every surrogate is half
  of a pair, decrypting what \<open>encrypt\<close> returns for it, under the same key, gives the
  string back, whatever 16-byte iv was drawn: the serialized form
  \<open>hex(iv) + ":" + hex(ciphertext)\<close> is split at the colon, both parts are decoded from hex,
  and the ciphertext is decrypted and unpadded.
\<close>

theorem encrypt_decrypt_roundtrip:
  assumes "block_cipher cfg" and "length iv = IV_LENGTH" and "well_formed s"
  shows "\<exists>c. encrypt cfg iv (JStr s) = Inr c \<and> decrypt cfg (JStr c) = Inr s"
  using decrypt_encrypt [OF assms(1,2), of s] to_well_formed_id [OF assms(3)] by simp

lemma sample_encrypt:
  "encrypt sample_config (iv_name sample_draws) (JStr sample_text) =
     Inr (js ''01010101010101010101010101010101:61c3a9e484aef29f9a82080808080808'')"
  by code_simp

lemma well_formed_sample_text: "well_formed sample_text"
  by code_simp

theorem encrypt_decrypt_roundtrip_witness:
  "block_cipher sample_config \<and> length (iv_name sample_draws) = IV_LENGTH \<and>
   well_formed sample_text \<and>
   encrypt sample_config (iv_name sample_draws) (JStr sample_text) =
     Inr (js ''01010101010101010101010101010101:61c3a9e484aef29f9a82080808080808'') \<and>
   decrypt sample_config
     (JStr (js ''01010101010101010101010101010101:61c3a9e484aef29f9a82080808080808'')) =
     Inr sample_text"
  using encrypt_decrypt_roundtrip [OF block_cipher_sample iv_name_sample well_formed_sample_text]
    block_cipher_sample iv_name_sample well_formed_sample_text sample_encrypt
  by auto

section \<open>Decryption failures in the record codec\<close>

lemma split_acc_first:
  "\<exists>ps. split_acc c acc s = (rev acc @ takeWhile (\<lambda>x. x \<noteq> c) s) # ps"
proof (induction s arbitrary: acc)
  case Nil
  show ?case by simp
next
  case (Cons a s)
  show ?case using Cons [of "a # acc"] by auto
qed

lemma split_first: "\<exists>ps. split c s = takeWhile (\<lambda>x. x \<noteq> c) s # ps"
  using split_acc_first [of c "[]" s] by (simp add: split_def)

lemma decrypt_needs_iv: "\<not> has_iv v \<Longrightarrow> isl (decrypt cfg v)"
proof (cases v)
  case (JStr s)
  assume h: "\<not> has_iv v"
  obtain ps where ps: "split colon s = takeWhile (\<lambda>x. x \<noteq> colon) s # ps"
    using split_first [of colon s] by blast
  show ?thesis using h JStr ps by (simp add: decrypt_def has_iv_def Let_def)
qed (simp_all add: decrypt_def)

lemma decryptItem_raw:
  assumes "isl (decrypt cfg (fld it ''name'')) \<or> isl (decrypt cfg (fld it ''stock'')) \<or>
           isl (decrypt cfg (fld it ''price''))"
  shows "decryptItem cfg (Some it) = Some it"
  using assms by (auto simp: decryptItem_def split: sum.splits)

text \<open>
  Claim C5 says that a row with a name that is not in cipher form comes back unchanged.
  \<open>Buffer.from(.., 'hex')\<close> stops at the first pair that is not hexadecimal and keeps what
  it has read: the stored row with \<open>zz\<close> added to its name is not in cipher form, and it
  is decrypted like the row itself.
\<close>

theorem decryptItem_trailing_counterexample:
  "\<not> cipher_field (fld sample_trailing_row ''name'') \<and>
   decryptItem sample_config (Some sample_trailing_row) =
     Some [(''id'', JStr (js ''id-1'')), (''name'', JStr (js ''apple'')),
           (''stock'', JNum (Fin 0)), (''price'', JNum (Fin 5))] \<and>
   decryptItem sample_config (Some sample_trailing_row) \<noteq> Some sample_trailing_row"
  by code_simp

text \<open>
  Claim C5, amended. When decrypting any of the three sensitive fields of a row fails,
  \<open>decryptItem\<close> returns the row exactly as it was stored: nothing is raised and no field
  is replaced by its plaintext. In particular this is what happens to a row whose name
  is not a string, or whose name does not start, before its first colon, with the hex form
  of a 16-byte iv, such as a legacy plaintext name.
\<close>

theorem decryptItem_keeps_row_on_failure:
  "(isl (decrypt cfg (fld it ''name'')) \<or> isl (decrypt cfg (fld it ''stock'')) \<or>
    isl (decrypt cfg (fld it ''price'')) \<longrightarrow> decryptItem cfg (Some it) = Some it) \<and>
   (\<not> has_iv (fld it ''name'') \<longrightarrow> decryptItem cfg (Some it) = Some it)"
  using decryptItem_raw [of cfg it] decrypt_needs_iv [of "fld it ''name''" cfg] by blast

lemma legacy_name_has_no_iv: "\<not> has_iv (fld sample_legacy_row ''name'')"
  by code_simp

theorem decryptItem_keeps_row_on_failure_witness:
  "isl (decrypt sample_config (fld sample_legacy_row ''name'')) \<and>
   \<not> has_iv (fld sample_legacy_row ''name'') \<and>
   decryptItem sample_config (Some sample_legacy_row) = Some sample_legacy_row"
  using decryptItem_keeps_row_on_failure [of sample_config sample_legacy_row]
    legacy_name_has_no_iv decrypt_needs_iv [OF legacy_name_has_no_iv, of sample_config]
  by blast

section \<open>Updates that name no field\<close>

lemma build_update_nothing:
  assumes "\<not> supplied b ''name''" "\<not> supplied b ''stock''" "\<not> supplied b ''price''"
  shows "build_update cfg d b = Inr empty_spec"
  using assms by (simp add: build_update_def supplied_def)

text \<open>
  Claim C7. An Update whose body supplies none of \<open>name\<close>, \<open>stock\<close>, \<open>price\<close> is
  answered with status 400, "No fields to update". The answer is the same for every table
  and the table is returned as it was: no storage call takes part in it.
\<close>

theorem put_without_fields:
  assumes "httpMethod ev = ''PUT''"
    and "queryStringParameters ev = Some q" and "map_of q ''id'' = Some k" and "k \<noteq> []"
    and "event.body ev = Parsed v" and "destructure v = Inr b"
    and "\<not> supplied b ''name''" and "\<not> supplied b ''stock''" and "\<not> supplied b ''price''"
  shows "handler cfg d ev t = (reply 400 (error_body ''No fields to update''), t)"
  using assms build_update_nothing [of b cfg d]
  by (simp add: handler_def handle_put_def param_def empty_spec_def)

theorem put_without_fields_witness:
  "httpMethod (put_event (js ''id-1'') (JObj [])) = ''PUT'' \<and>
   queryStringParameters (put_event (js ''id-1'') (JObj [])) = Some [(''id'', (js ''id-1''))] \<and>
   map_of [(''id'', (js ''id-1''))] ''id'' = Some (js ''id-1'') \<and> (js ''id-1'') \<noteq> [] \<and>
   event.body (put_event (js ''id-1'') (JObj [])) = Parsed (JObj []) \<and>
   destructure (JObj []) = Inr [] \<and>
   \<not> supplied [] ''name'' \<and> \<not> supplied [] ''stock'' \<and> \<not> supplied [] ''price'' \<and>
   handler sample_config sample_draws (put_event (js ''id-1'') (JObj [])) [sample_legacy_row] =
     (reply 400 (error_body ''No fields to update''), [sample_legacy_row])"
  using put_without_fields [of "put_event (js ''id-1'') (JObj [])" "[(''id'', (js ''id-1''))]" "(js ''id-1'')"
      "JObj []" "[]" sample_config sample_draws "[sample_legacy_row]"]
  by (simp add: put_event_def supplied_def fld_def)

section \<open>The method fallthrough\<close>

text \<open>
  Claim C9 says that every response carries the cross-origin headers. The response to a
  method other than POST, GET, PUT and DELETE has no headers at all.
\<close>

theorem method_not_allowed_without_headers:
  "handler cfg d \<lparr>httpMethod = ''PATCH'', queryStringParameters = None, body = NoBody\<rparr> t =
     (\<lparr>statusCode = 405, headers = None, body = error_body ''Method not allowed''\<rparr>, t)"
  by (simp add: handler_def)

theorem method_not_allowed_without_headers_witness:
  "handler sample_config sample_draws
     \<lparr>httpMethod = ''PATCH'', queryStringParameters = None, body = NoBody\<rparr> [] =
     (\<lparr>statusCode = 405, headers = None, body = error_body ''Method not allowed''\<rparr>, [])"
  using method_not_allowed_without_headers [of sample_config sample_draws "[]"] .

lemma handle_post_headers: "headers (fst (handle_post cfg d ev t)) = Some cors"
  by (simp add: handle_post_def reply_def Let_def split: reqbody.splits sum.splits)

lemma handle_get_headers: "headers (fst (handle_get cfg ev t)) = Some cors"
  by (simp add: handle_get_def reply_def Let_def split: jsval.splits sum.splits)

lemma handle_put_headers: "headers (fst (handle_put cfg d ev t)) = Some cors"
  by (simp add: handle_put_def reply_def Let_def
      split: option.splits jsval.splits reqbody.splits sum.splits prod.splits)

lemma handle_delete_headers: "headers (fst (handle_delete cfg ev t)) = Some cors"
  by (simp add: handle_delete_def reply_def Let_def
      split: option.splits jsval.splits prod.splits)

lemma supported_methods_have_headers:
  assumes "httpMethod ev \<in> {''POST'', ''GET'', ''PUT'', ''DELETE''}"
  shows "headers (fst (handler cfg d ev t)) = Some cors"
  using assms
  by (auto simp: handler_def handle_post_headers handle_get_headers handle_put_headers
      handle_delete_headers)

section \<open>The table operations\<close>


lemma dynamo_get_after_delete: "dynamo_get (fst (dynamo_delete t k)) k = None"
  by (simp add: dynamo_delete_def dynamo_get_def find_None_iff)

lemma dynamo_get_other_after_delete:
  "k' \<noteq> k \<Longrightarrow> dynamo_get (fst (dynamo_delete t k)) k' = dynamo_get t k'"
  by (induction t) (auto simp: dynamo_delete_def dynamo_get_def)

lemma dynamo_delete_absent: "dynamo_get t k = None \<Longrightarrow> fst (dynamo_delete t k) = t"
  by (induction t) (auto simp: dynamo_delete_def dynamo_get_def split: if_splits)

section \<open>Delete\<close>

lemma handle_delete_present:
  assumes "queryStringParameters ev = Some q" and "map_of q ''id'' = Some k" and "k \<noteq> []"
    and "dynamo_get t k = Some item"
  shows "handle_delete cfg ev t =
           (reply 200 (JObj [(''message'', JStr (js ''Item deleted successfully'')),
                             (''deletedItem'', json_of_item (decryptItem cfg (Some item)))]),
            fst (dynamo_delete t k))"
  using assms by (simp add: handle_delete_def param_def dynamo_delete_def)

lemma handle_delete_absent:
  assumes "queryStringParameters ev = Some q" and "map_of q ''id'' = Some k" and "k \<noteq> []"
    and "dynamo_get t k = None"
  shows "handle_delete cfg ev t = (reply 404 (error_body ''Item not found''), t)"
  using assms dynamo_delete_absent [of t k]
  by (simp add: handle_delete_def param_def dynamo_delete_def)

lemma decryptItem_decrypts:
  assumes "decrypt cfg (fld it ''name'') = Inr n" and "decrypt cfg (fld it ''stock'') = Inr s"
    and "decrypt cfg (fld it ''price'') = Inr p"
  shows "decryptItem cfg (Some it) =
           Some (AList.update ''price'' (js_Number cfg p)
                  (AList.update ''stock'' (js_Number cfg s)
                    (AList.update ''name'' (JStr n) it)))"
  using assms by (simp add: decryptItem_def)

lemma decrypt_encrypted_as:
  assumes "block_cipher cfg" and "encrypted_as cfg iv text v"
  shows "decrypt cfg v = Inr text"
proof -
  have iv: "length iv = IV_LENGTH" and wf: "well_formed text"
    using assms(2) by (simp_all add: encrypted_as_def)
  obtain c where c: "encrypt cfg iv (JStr text) = Inr c" "decrypt cfg (JStr c) = Inr text"
    using decrypt_encrypt [OF assms(1) iv, of "text"] to_well_formed_id [OF wf] by auto
  have "v = JStr c" using assms(2) c(1) by (simp add: encrypted_as_def)
  then show ?thesis using c(2) by simp
qed

lemma decryptItem_of_encrypted_row:
  assumes "block_cipher cfg"
    and "encrypted_as cfg ivn n (fld it ''name'')"
    and "encrypted_as cfg ivs s (fld it ''stock'')"
    and "encrypted_as cfg ivp p (fld it ''price'')"
  shows "decryptItem cfg (Some it) =
           Some (AList.update ''price'' (js_Number cfg p)
                  (AList.update ''stock'' (js_Number cfg s)
                    (AList.update ''name'' (JStr n) it)))"
  using decryptItem_decrypts [OF decrypt_encrypted_as [OF assms(1,2)]
      decrypt_encrypted_as [OF assms(1,3)] decrypt_encrypted_as [OF assms(1,4)]] .

text \<open>
  Claim C8. A Delete of an id that is in the table answers 200 with the stored row passed
  through \<open>decryptItem\<close>, leaves the id absent and every other id as it was; the same
  Delete sent again is answered with 404, "Item not found". When the stored row holds the
  encryptions of a name and of the texts of a stock and a price, the item in the answer
  is the row with that name in the clear and with the numbers read from the two texts.
\<close>

theorem delete_present_then_absent:
  assumes "httpMethod ev = ''DELETE''"
    and "queryStringParameters ev = Some q" and "map_of q ''id'' = Some k" and "k \<noteq> []"
    and "dynamo_get t k = Some item"
  shows "fst (handler cfg d ev t) =
           reply 200 (JObj [(''message'', JStr (js ''Item deleted successfully'')),
                            (''deletedItem'', json_of_item (decryptItem cfg (Some item)))]) \<and>
         dynamo_get (snd (handler cfg d ev t)) k = None \<and>
         (\<forall>k'. k' \<noteq> k \<longrightarrow> dynamo_get (snd (handler cfg d ev t)) k' = dynamo_get t k') \<and>
         handler cfg d' ev (snd (handler cfg d ev t)) =
           (reply 404 (error_body ''Item not found''), snd (handler cfg d ev t)) \<and>
         (block_cipher cfg \<and> encrypted_as cfg ivn n (fld item ''name'') \<and>
          encrypted_as cfg ivs s (fld item ''stock'') \<and>
          encrypted_as cfg ivp p (fld item ''price'') \<longrightarrow>
            fst (handler cfg d ev t) =
              reply 200 (JObj [(''message'', JStr (js ''Item deleted successfully'')),
                               (''deletedItem'',
                                JObj (AList.update ''price'' (js_Number cfg p)
                                       (AList.update ''stock'' (js_Number cfg s)
                                         (AList.update ''name'' (JStr n) item))))]))"
proof -
  let ?t' = "fst (dynamo_delete t k)"
  have first: "handler cfg d ev t =
      (reply 200 (JObj [(''message'', JStr (js ''Item deleted successfully'')),
                        (''deletedItem'', json_of_item (decryptItem cfg (Some item)))]), ?t')"
    using assms(1) handle_delete_present [OF assms(2-5)] by (simp add: handler_def)
  have gone: "dynamo_get ?t' k = None" by (rule dynamo_get_after_delete)
  have second: "handler cfg d' ev ?t' = (reply 404 (error_body ''Item not found''), ?t')"
    using assms(1) handle_delete_absent [OF assms(2-4) gone] by (simp add: handler_def)
  have clear: "json_of_item (decryptItem cfg (Some item)) =
      JObj (AList.update ''price'' (js_Number cfg p)
             (AList.update ''stock'' (js_Number cfg s)
               (AList.update ''name'' (JStr n) item)))"
    if "block_cipher cfg" and "encrypted_as cfg ivn n (fld item ''name'')"
      and "encrypted_as cfg ivs s (fld item ''stock'')"
      and "encrypted_as cfg ivp p (fld item ''price'')"
    using decryptItem_of_encrypted_row [OF that] by (simp add: json_of_item_def)
  show ?thesis
    using first gone second clear by (simp add: dynamo_get_other_after_delete)
qed

lemma sample_row_encrypted:
  "encrypted_as sample_config (iv_name sample_draws) (js ''apple'') (fld sample_row ''name'')"
  "encrypted_as sample_config (iv_stock sample_draws) (js ''0'') (fld sample_row ''stock'')"
  "encrypted_as sample_config (iv_price sample_draws) (js ''5'') (fld sample_row ''price'')"
  by code_simp+

lemma sample_row_in_the_clear:
  "AList.update ''price'' (js_Number sample_config (js ''5''))
     (AList.update ''stock'' (js_Number sample_config (js ''0''))
       (AList.update ''name'' (JStr (js ''apple'')) sample_row)) =
   [(''id'', JStr (js ''id-1'')), (''name'', JStr (js ''apple'')),
    (''stock'', JNum (Fin 0)), (''price'', JNum (Fin 5))]"
  by code_simp

theorem delete_present_then_absent_witness:
  "httpMethod (delete_event (js ''id-1'')) = ''DELETE'' \<and>
   queryStringParameters (delete_event (js ''id-1'')) = Some [(''id'', js ''id-1'')] \<and>
   map_of [(''id'', js ''id-1'')] ''id'' = Some (js ''id-1'') \<and> js ''id-1'' \<noteq> [] \<and>
   dynamo_get sample_table (js ''id-1'') = Some sample_row \<and>
   block_cipher sample_config \<and>
   encrypted_as sample_config (iv_name sample_draws) (js ''apple'') (fld sample_row ''name'') \<and>
   encrypted_as sample_config (iv_stock sample_draws) (js ''0'') (fld sample_row ''stock'') \<and>
   encrypted_as sample_config (iv_price sample_draws) (js ''5'') (fld sample_row ''price'') \<and>
   fst (handler sample_config sample_draws (delete_event (js ''id-1'')) sample_table) =
     reply 200 (JObj [(''message'', JStr (js ''Item deleted successfully'')),
                      (''deletedItem'',
                       JObj [(''id'', JStr (js ''id-1'')), (''name'', JStr (js ''apple'')),
                             (''stock'', JNum (Fin 0)), (''price'', JNum (Fin 5))])]) \<and>
   dynamo_get (snd (handler sample_config sample_draws (delete_event (js ''id-1'')) sample_table))
     (js ''id-1'') = None \<and>
   handler sample_config sample_draws (delete_event (js ''id-1''))
       (snd (handler sample_config sample_draws (delete_event (js ''id-1'')) sample_table)) =
     (reply 404 (error_body ''Item not found''),
      snd (handler sample_config sample_draws (delete_event (js ''id-1'')) sample_table))"
proof -
  have g: "dynamo_get sample_table (js ''id-1'') = Some sample_row"
    by (simp add: dynamo_get_def sample_table_def sample_row_def fld_def)
  have e: "httpMethod (delete_event (js ''id-1'')) = ''DELETE''"
    "queryStringParameters (delete_event (js ''id-1'')) = Some [(''id'', js ''id-1'')]"
    "map_of [(''id'', js ''id-1'')] ''id'' = Some (js ''id-1'')" "js ''id-1'' \<noteq> []"
    by (simp_all add: delete_event_def)
  note main = delete_present_then_absent [OF e g, of sample_config sample_draws sample_draws
      "iv_name sample_draws" "js ''apple''" "iv_stock sample_draws" "js ''0''"
      "iv_price sample_draws" "js ''5''"]
  have enc: "block_cipher sample_config \<and>
      encrypted_as sample_config (iv_name sample_draws) (js ''apple'') (fld sample_row ''name'') \<and>
      encrypted_as sample_config (iv_stock sample_draws) (js ''0'') (fld sample_row ''stock'') \<and>
      encrypted_as sample_config (iv_price sample_draws) (js ''5'') (fld sample_row ''price'')"
    using block_cipher_sample sample_row_encrypted by blast
  have "fst (handler sample_config sample_draws (delete_event (js ''id-1'')) sample_table) =
      reply 200 (JObj [(''message'', JStr (js ''Item deleted successfully'')),
                       (''deletedItem'',
                        JObj (AList.update ''price'' (js_Number sample_config (js ''5''))
                               (AList.update ''stock'' (js_Number sample_config (js ''0''))
                                 (AList.update ''name'' (JStr (js ''apple'')) sample_row))))])"
    using main enc by blast
  then have answer:
    "fst (handler sample_config sample_draws (delete_event (js ''id-1'')) sample_table) =
      reply 200 (JObj [(''message'', JStr (js ''Item deleted successfully'')),
                       (''deletedItem'',
                        JObj [(''id'', JStr (js ''id-1'')), (''name'', JStr (js ''apple'')),
                              (''stock'', JNum (Fin 0)), (''price'', JNum (Fin 5))])])"
    by (simp only: sample_row_in_the_clear)
  show ?thesis using main e g enc answer by blast
qed

section \<open>The partial update builder\<close>

lemma encrypt_string: "\<exists>c. encrypt cfg iv (JStr s) = Inr c"
  by (simp add: encrypt_def)

lemma encrypt_only_strings: "encrypt cfg iv v = Inr c \<Longrightarrow> is_string v"
  by (cases v) (simp_all add: encrypt_def)

lemma is_string_iff: "is_string v \<longleftrightarrow> (\<exists>s. v = JStr s)"
  by (cases v) simp_all

lemma js_String_throws:
  "isl (js_String cfg v) \<longleftrightarrow> \<not> stringable v"
  "isl (js_String_elements cfg xs) \<longleftrightarrow> \<not> list_all stringable xs"
proof (induction cfg v and cfg xs rule: js_String_js_String_elements.induct)
  case (9 cfg x xs)
  have "isl (js_String cfg x) \<longleftrightarrow> \<not> stringable x" if "\<not> (x = JUndefined \<or> x = JNull)"
    using 9(1) that by simp
  then show ?case using 9(2) by (auto split: sum.splits)
qed (auto split: sum.splits)

lemma encrypt_String_total:
  assumes "stringable v"
  shows "\<exists>c. encrypt_String cfg iv v = Inr c"
proof -
  obtain s where "js_String cfg v = Inr s"
    using assms js_String_throws(1) [of cfg v] by (cases "js_String cfg v") auto
  then show ?thesis using encrypt_string [of cfg iv s] by (simp add: encrypt_String_def)
qed

lemma encrypt_String_throws:
  assumes "\<not> stringable v"
  shows "isl (encrypt_String cfg iv v)"
  using assms js_String_throws(1) [of cfg v]
  by (cases "js_String cfg v") (auto simp: encrypt_String_def)

lemma build_update_total:
  assumes "truthy (fld b ''name'') \<longrightarrow> is_string (fld b ''name'')"
    and "supplied b ''stock'' \<longrightarrow> stringable (fld b ''stock'')"
    and "supplied b ''price'' \<longrightarrow> stringable (fld b ''price'')"
  shows "\<exists>spec. build_update cfg d b = Inr spec"
proof -
  have n: "\<exists>c. encrypt cfg (iv_name d) (fld b ''name'') = Inr c" if "truthy (fld b ''name'')"
    using that assms(1) encrypt_string [of cfg "iv_name d"] by (auto simp: is_string_iff)
  have s: "\<exists>c. encrypt_String cfg (iv_stock d) (fld b ''stock'') = Inr c"
    if "fld b ''stock'' \<noteq> JUndefined"
    using that assms(2) encrypt_String_total by (simp add: supplied_def)
  have p: "\<exists>c. encrypt_String cfg (iv_price d) (fld b ''price'') = Inr c"
    if "fld b ''price'' \<noteq> JUndefined"
    using that assms(3) encrypt_String_total by (simp add: supplied_def)
  show ?thesis
    using n s p by (auto simp: build_update_def set_clause_def Let_def)
qed

text \<open>The builder throws in no other case.\<close>

lemma build_update_throws:
  "isl (build_update cfg d b) \<longleftrightarrow>
     (truthy (fld b ''name'') \<and> \<not> is_string (fld b ''name'')) \<or>
     (supplied b ''stock'' \<and> \<not> stringable (fld b ''stock'')) \<or>
     (supplied b ''price'' \<and> \<not> stringable (fld b ''price''))"
proof
  assume "isl (build_update cfg d b)"
  then show "(truthy (fld b ''name'') \<and> \<not> is_string (fld b ''name'')) \<or>
     (supplied b ''stock'' \<and> \<not> stringable (fld b ''stock'')) \<or>
     (supplied b ''price'' \<and> \<not> stringable (fld b ''price''))"
    using build_update_total [of b cfg d] by fastforce
next
  assume a: "(truthy (fld b ''name'') \<and> \<not> is_string (fld b ''name'')) \<or>
     (supplied b ''stock'' \<and> \<not> stringable (fld b ''stock'')) \<or>
     (supplied b ''price'' \<and> \<not> stringable (fld b ''price''))"
  have n: "isl (encrypt cfg (iv_name d) (fld b ''name''))" if "\<not> is_string (fld b ''name'')"
    using that encrypt_only_strings [of cfg "iv_name d" "fld b ''name''"]
    by (cases "encrypt cfg (iv_name d) (fld b ''name'')") auto
  show "isl (build_update cfg d b)"
    using a n encrypt_String_throws [of "fld b ''stock''" cfg "iv_stock d"]
      encrypt_String_throws [of "fld b ''price''" cfg "iv_price d"]
    by (auto simp: build_update_def set_clause_def Let_def supplied_def split: sum.splits)
qed

lemma build_update_clauses:
  assumes "build_update cfg d b = Inr spec"
  shows "updateExpression spec =
           (if truthy (fld b ''name'') then [Assign ''#name'' '':name''] else []) @
           (if supplied b ''stock'' then [Assign ''#stock'' '':stock''] else []) @
           (if supplied b ''price'' then [Assign ''#price'' '':price''] else [])"
  using assms
  by (auto simp: build_update_def set_clause_def Let_def add_clause_def empty_spec_def
      supplied_def split: if_splits sum.splits)

lemma build_update_resolves:
  assumes "build_update cfg d b = Inr spec"
  shows "\<exists>rs. resolve spec (updateExpression spec) = Inr rs"
  using assms
  by (auto simp: build_update_def set_clause_def Let_def add_clause_def empty_spec_def
      split: if_splits sum.splits)

text \<open>
  Claim C3 says that a clause is appended for a field exactly when the body supplies its
  key, also for \<open>name: ""\<close>. The builder tests \<open>name\<close> for truthiness: an empty name is
  supplied and gets no clause.
\<close>

theorem update_empty_name_counterexample:
  "supplied [(''name'', JStr [])] ''name'' \<and>
   build_update sample_config sample_draws [(''name'', JStr [])] = Inr empty_spec \<and>
   Assign ''#name'' '':name'' \<notin> set (updateExpression empty_spec)"
  by (simp add: supplied_def fld_def build_update_def empty_spec_def)

text \<open>
  Claim C3, amended. In the handler with encryption the builder does not throw when a
  truthy \<open>name\<close> is a string and \<open>String\<close> does not throw on a supplied \<open>stock\<close> or
  \<open>price\<close> (it throws on an object that has a key \<open>toString\<close>, alone or in an array). The
  clauses then are: the one for \<open>name\<close> exactly when the supplied name is truthy, the one
  for \<open>stock\<close> exactly when the key \<open>stock\<close> is supplied, and the one for \<open>price\<close>
  exactly when the key \<open>price\<close> is supplied, whatever their values, in this order and
  nothing else.
\<close>

theorem update_clause_per_field:
  assumes "truthy (fld b ''name'') \<longrightarrow> is_string (fld b ''name'')"
    and "supplied b ''stock'' \<longrightarrow> stringable (fld b ''stock'')"
    and "supplied b ''price'' \<longrightarrow> stringable (fld b ''price'')"
  shows "\<exists>spec. build_update cfg d b = Inr spec \<and>
           updateExpression spec =
             (if truthy (fld b ''name'') then [Assign ''#name'' '':name''] else []) @
             (if supplied b ''stock'' then [Assign ''#stock'' '':stock''] else []) @
             (if supplied b ''price'' then [Assign ''#price'' '':price''] else [])"
  using build_update_total [OF assms, of cfg d] build_update_clauses [of cfg d b] by blast

theorem update_clause_per_field_witness:
  "\<not> truthy (fld [(''stock'', JNum (Fin 0))] ''name'') \<and>
   supplied [(''stock'', JNum (Fin 0))] ''stock'' \<and>
   stringable (fld [(''stock'', JNum (Fin 0))] ''stock'') \<and>
   \<not> supplied [(''stock'', JNum (Fin 0))] ''price'' \<and>
   (\<exists>spec. build_update sample_config sample_draws [(''stock'', JNum (Fin 0))] = Inr spec \<and>
      updateExpression spec = [Assign ''#stock'' '':stock''])"
  using update_clause_per_field [of "[(''stock'', JNum (Fin 0))]" sample_config sample_draws]
  by (simp add: fld_def supplied_def)

lemma plain_build_update_zero_stock:
  "updateExpression (plain_build_update [(''stock'', JNum (Fin 0))]) = []"
  by (simp add: plain_build_update_def fld_def empty_spec_def)

section \<open>Update of an id that is not in the table\<close>

lemma dynamo_update_absent:
  assumes "dynamo_get t k = None"
  shows "dynamo_update t k spec (Attribute_exists a) =
           (case resolve spec (updateExpression spec) of
              Inl e \<Rightarrow> Inl e
            | Inr rs \<Rightarrow> Inl ConditionalCheckFailedException)"
  using assms by (simp add: dynamo_update_def split: sum.splits)

text \<open>Without the condition the same call writes a new row.\<close>

lemma dynamo_update_unconditional_creates:
  assumes "dynamo_get t k = None" and "resolve spec (updateExpression spec) = Inr rs"
  shows "\<exists>t' new. dynamo_update t k spec Unconditional = Inr (t', new) \<and> new \<in> set t'"
  using assms by (simp add: dynamo_update_def dynamo_put_def Let_def)

lemma handle_put_absent_table:
  assumes "queryStringParameters ev = Some q" and "map_of q ''id'' = Some k"
    and "dynamo_get t k = None"
  shows "snd (handle_put cfg d ev t) = t \<and>
         statusCode (fst (handle_put cfg d ev t)) \<in> {400, 404, 500}"
  using assms
  by (simp add: handle_put_def param_def dynamo_update_absent reply_def
      split: reqbody.splits sum.splits)

lemma handle_put_absent_404:
  assumes "queryStringParameters ev = Some q" and "map_of q ''id'' = Some k"
    and "dynamo_get t k = None" and "k \<noteq> []"
    and "event.body ev = Parsed v" and "destructure v = Inr b"
    and "truthy (fld b ''name'') \<longrightarrow> is_string (fld b ''name'')"
    and "supplied b ''stock'' \<longrightarrow> stringable (fld b ''stock'')"
    and "supplied b ''price'' \<longrightarrow> stringable (fld b ''price'')"
    and "truthy (fld b ''name'') \<or> supplied b ''stock'' \<or> supplied b ''price''"
  shows "fst (handle_put cfg d ev t) = reply 404 (error_body ''Item not found'')"
proof -
  obtain spec where spec: "build_update cfg d b = Inr spec"
    using build_update_total [OF assms(7,8,9)] by blast
  have ne: "updateExpression spec \<noteq> []"
    using build_update_clauses [OF spec] assms(10) by auto
  obtain rs where rs: "resolve spec (updateExpression spec) = Inr rs"
    using build_update_resolves [OF spec] by blast
  show ?thesis
    using assms(1-6) spec ne rs
    by (simp add: handle_put_def param_def dynamo_update_absent)
qed

text \<open>
  Claim C6 says that every Update naming an id that is absent from the table fails with
  404. The checks that come before the storage call answer first: for an absent id, a
  body without fields is answered with 400 and a body on whose price \<open>String\<close> throws
  with 500. The table is unchanged in both cases.
\<close>

theorem put_absent_id_counterexample:
  "dynamo_get sample_table (js ''id-9'') = None \<and>
   handler sample_config sample_draws (put_event (js ''id-9'') (JObj [])) sample_table =
     (reply 400 (error_body ''No fields to update''), sample_table) \<and>
   handler sample_config sample_draws
       (put_event (js ''id-9'') (JObj [(''price'', unprintable)])) sample_table =
     (reply 500 (error_body ''Failed to update item''), sample_table)"
  by code_simp

text \<open>
  Claim C6, amended. An Update that names an id absent from the table never writes: the
  table is returned unchanged and the status is 400, 404 or 500. Whenever the request
  reaches the storage call, that is, the id is not empty, the body parses to a value
  other than null, it supplies at least one field to set and the builder does not throw
  (a name to set is a string, and \<open>String\<close> does not throw on a supplied stock or price),
  the condition \<open>attribute_exists(id)\<close> fails and the answer is 404, "Item not found".
\<close>

theorem put_absent_id:
  assumes "httpMethod ev = ''PUT''"
    and "queryStringParameters ev = Some q" and "map_of q ''id'' = Some k"
    and "dynamo_get t k = None"
  shows "snd (handler cfg d ev t) = t \<and>
         statusCode (fst (handler cfg d ev t)) \<in> {400, 404, 500} \<and>
         (k \<noteq> [] \<and> event.body ev = Parsed v \<and> destructure v = Inr b \<and>
          (truthy (fld b ''name'') \<longrightarrow> is_string (fld b ''name'')) \<and>
          (supplied b ''stock'' \<longrightarrow> stringable (fld b ''stock'')) \<and>
          (supplied b ''price'' \<longrightarrow> stringable (fld b ''price'')) \<and>
          (truthy (fld b ''name'') \<or> supplied b ''stock'' \<or> supplied b ''price'') \<longrightarrow>
            fst (handler cfg d ev t) = reply 404 (error_body ''Item not found''))"
proof -
  have h: "handler cfg d ev t = handle_put cfg d ev t"
    using assms(1) by (simp add: handler_def)
  show ?thesis
    unfolding h
    using handle_put_absent_table [OF assms(2-4), of cfg d]
      handle_put_absent_404 [OF assms(2-4), of v b cfg d]
    by blast
qed

theorem put_absent_id_witness:
  "httpMethod (put_event (js ''id-9'') (JObj [(''stock'', JNum (Fin 0))])) = ''PUT'' \<and>
   queryStringParameters (put_event (js ''id-9'') (JObj [(''stock'', JNum (Fin 0))])) =
     Some [(''id'', js ''id-9'')] \<and>
   map_of [(''id'', js ''id-9'')] ''id'' = Some (js ''id-9'') \<and>
   dynamo_get sample_table (js ''id-9'') = None \<and>
   js ''id-9'' \<noteq> [] \<and>
   event.body (put_event (js ''id-9'') (JObj [(''stock'', JNum (Fin 0))])) =
     Parsed (JObj [(''stock'', JNum (Fin 0))]) \<and>
   destructure (JObj [(''stock'', JNum (Fin 0))]) = Inr [(''stock'', JNum (Fin 0))] \<and>
   \<not> truthy (fld [(''stock'', JNum (Fin 0))] ''name'') \<and>
   supplied [(''stock'', JNum (Fin 0))] ''stock'' \<and>
   stringable (fld [(''stock'', JNum (Fin 0))] ''stock'') \<and>
   \<not> supplied [(''stock'', JNum (Fin 0))] ''price'' \<and>
   handler sample_config sample_draws (put_event (js ''id-9'') (JObj [(''stock'', JNum (Fin 0))]))
       sample_table =
     (reply 404 (error_body ''Item not found''), sample_table)"
proof -
  let ?ev = "put_event (js ''id-9'') (JObj [(''stock'', JNum (Fin 0))])"
  have e: "httpMethod ?ev = ''PUT''"
    "queryStringParameters ?ev = Some [(''id'', js ''id-9'')]"
    "map_of [(''id'', js ''id-9'')] ''id'' = Some (js ''id-9'')"
    by (simp_all add: put_event_def)
  have g: "dynamo_get sample_table (js ''id-9'') = None"
    by (simp add: dynamo_get_def sample_table_def sample_row_def fld_def)
  have b: "event.body ?ev = Parsed (JObj [(''stock'', JNum (Fin 0))])"
    "destructure (JObj [(''stock'', JNum (Fin 0))]) = Inr [(''stock'', JNum (Fin 0))]"
    "supplied [(''stock'', JNum (Fin 0))] ''stock''"
    "stringable (fld [(''stock'', JNum (Fin 0))] ''stock'')"
    "\<not> supplied [(''stock'', JNum (Fin 0))] ''price''"
    "\<not> truthy (fld [(''stock'', JNum (Fin 0))] ''name'')"
    by (simp_all add: put_event_def supplied_def fld_def)
  show ?thesis
    using put_absent_id [OF e g, of sample_config sample_draws
        "JObj [(''stock'', JNum (Fin 0))]" "[(''stock'', JNum (Fin 0))]"] e g b
    by (simp add: prod_eq_iff)
qed

section \<open>Required fields of Create\<close>

text \<open>
  Claim C4 says that Create accepts \<open>stock: 0\<close> and \<open>price: 0\<close>. The POST branch of
  \<open>lambda/handler.ts\<close> tests \<open>!stock\<close> and \<open>!price\<close> and answers 400 to a body with
  \<open>stock: 0\<close>, writing nothing.
\<close>

theorem plain_post_rejects_zero_stock:
  "plain_handle_post d post_zero_stock t =
     (reply 400 (error_body ''Missing required fields: name, stock, price''), t)"
  by (simp add: plain_handle_post_def post_zero_stock_def fld_def)

theorem plain_post_rejects_zero_stock_witness:
  "plain_handle_post sample_draws post_zero_stock [] =
     (reply 400 (error_body ''Missing required fields: name, stock, price''), [])"
  using plain_post_rejects_zero_stock [of sample_draws "[]"] .

text \<open>The POST branch of the handler with encryption does what the claim says.\<close>

lemma post_missing_field:
  assumes "httpMethod ev = ''POST''" and "event.body ev = Parsed v" and "destructure v = Inr b"
    and "\<not> supplied b ''name'' \<or> \<not> supplied b ''stock'' \<or> \<not> supplied b ''price''"
  shows "handler cfg d ev t =
           (reply 400 (error_body ''Missing required fields: name, stock, price''), t)"
  using assms by (auto simp: handler_def handle_post_def supplied_def)

lemma post_stores:
  assumes "httpMethod ev = ''POST''" and "event.body ev = Parsed v" and "destructure v = Inr b"
    and "fld b ''name'' = JStr s" and "s \<noteq> []"
    and "supplied b ''stock''" and "supplied b ''price''"
    and "stringable (fld b ''stock'')" and "stringable (fld b ''price'')"
  shows "\<exists>n st p. encrypt cfg (iv_name d) (JStr s) = Inr n \<and>
           encrypt_String cfg (iv_stock d) (fld b ''stock'') = Inr st \<and>
           encrypt_String cfg (iv_price d) (fld b ''price'') = Inr p \<and>
           handler cfg d ev t =
             (reply 201 (JObj [(''message'', JStr (js ''Item created successfully'')),
                               (''id'', JStr (uniqueId d)), (''name'', JStr s),
                               (''stock'', fld b ''stock''), (''price'', fld b ''price'')]),
              dynamo_put t [(''id'', JStr (uniqueId d)), (''name'', JStr n),
                            (''stock'', JStr st), (''price'', JStr p)])"
proof -
  obtain n where n: "encrypt cfg (iv_name d) (JStr s) = Inr n"
    using encrypt_string by blast
  obtain st where st: "encrypt_String cfg (iv_stock d) (fld b ''stock'') = Inr st"
    using encrypt_String_total [OF assms(8)] by blast
  obtain p where p: "encrypt_String cfg (iv_price d) (fld b ''price'') = Inr p"
    using encrypt_String_total [OF assms(9)] by blast
  show ?thesis
    using assms(1-7) n st p by (simp add: handler_def handle_post_def supplied_def)
qed

text \<open>When \<open>String\<close> throws on the stock or on the price, nothing is stored.\<close>

lemma post_unprintable:
  assumes "httpMethod ev = ''POST''" and "event.body ev = Parsed v" and "destructure v = Inr b"
    and "\<not> stringable (fld b ''stock'') \<or> \<not> stringable (fld b ''price'')"
  shows "snd (handler cfg d ev t) = t \<and> statusCode (fst (handler cfg d ev t)) \<in> {400, 500}"
  using assms encrypt_String_throws [of "fld b ''stock''" cfg "iv_stock d"]
    encrypt_String_throws [of "fld b ''price''" cfg "iv_price d"]
  by (auto simp: handler_def handle_post_def Let_def reply_def split: sum.splits)

lemma post_accepts_zero_stock:
  "statusCode (fst (handler cfg d post_zero_stock t)) = 201"
  using post_stores [of post_zero_stock
      "JObj [(''name'', JStr (js ''apple'')), (''stock'', JNum (Fin 0)), (''price'', JNum (Fin 5))]"
      "[(''name'', JStr (js ''apple'')), (''stock'', JNum (Fin 0)), (''price'', JNum (Fin 5))]"
      "js ''apple''" cfg d t]
  by (auto simp: post_zero_stock_def fld_def supplied_def reply_def)

section \<open>Read with a name filter\<close>

lemma occurs_in_substring: "occurs_in f s \<longleftrightarrow> (\<exists>p r. s = p @ f @ r)"
proof (induction s)
  case Nil
  show ?case by auto
next
  case (Cons x xs)
  have pre: "take (length f) (x # xs) = f \<longleftrightarrow> (\<exists>r. x # xs = f @ r)"
    by (metis append_eq_conv_conj append_take_drop_id)
  have "(\<exists>p r. x # xs = p @ f @ r) \<longleftrightarrow> (\<exists>r. x # xs = f @ r) \<or> (\<exists>p r. xs = p @ f @ r)"
  proof
    assume "\<exists>p r. x # xs = p @ f @ r"
    then obtain p r where pr: "x # xs = p @ f @ r" by blast
    show "(\<exists>r. x # xs = f @ r) \<or> (\<exists>p r. xs = p @ f @ r)"
    proof (cases p)
      case Nil
      then show ?thesis using pr by auto
    next
      case (Cons y ys)
      then show ?thesis using pr by auto
    qed
  next
    assume "(\<exists>r. x # xs = f @ r) \<or> (\<exists>p r. xs = p @ f @ r)"
    then show "\<exists>p r. x # xs = p @ f @ r"
    proof
      assume "\<exists>r. x # xs = f @ r"
      then obtain r where "x # xs = [] @ f @ r" by auto
      then show ?thesis by blast
    next
      assume "\<exists>p r. xs = p @ f @ r"
      then obtain p r where "x # xs = (x # p) @ f @ r" by auto
      then show ?thesis by blast
    qed
  qed
  then show ?case using Cons.IH pre by simp
qed

lemma fld_update: "fld (AList.update a x item) k = (if k = a then x else fld item k)"
  by (simp add: fld_def update_conv')

lemma decryptItem_name_string:
  assumes "is_string (fld it ''name'')"
  shows "\<exists>r. decryptItem cfg (Some it) = Some r \<and> is_string (fld r ''name'')"
  using assms by (auto simp: decryptItem_def fld_update split: sum.splits)

lemma filter_by_name_strings:
  assumes "list_all (\<lambda>item. \<exists>it. item = Some it \<and> is_string (fld it ''name'')) items"
  shows "filter_by_name f items = Inr (filter (name_includes f) items)"
  using assms
proof (induction items)
  case Nil
  show ?case by simp
next
  case (Cons item items)
  then obtain it s where it: "item = Some it" "fld it ''name'' = JStr s"
    by (auto simp: is_string_iff)
  have "filter_by_name f items = Inr (filter (name_includes f) items)"
    using Cons by simp
  moreover have "name_includes f (Some it) = occurs_in f s"
    using it by (simp add: js_includes_def name_includes_def)
  ultimately show ?case using it by (simp add: js_includes_def)
qed

lemma decrypted_items_strings:
  assumes "list_all (\<lambda>it. is_string (fld it ''name'')) t"
  shows "list_all (\<lambda>item. \<exists>it. item = Some it \<and> is_string (fld it ''name''))
           (map (\<lambda>it. decryptItem cfg (Some it)) t)"
  using assms decryptItem_name_string [of _ cfg]
  by (induction t) auto

text \<open>
  Claim C10. Read with a name filter tests the filter against the name each item has
  after \<open>decryptItem\<close>. A row on which decryption failed is still in its stored form, so
  it is in the answer exactly when the text stored in its name field contains the
  filter.
\<close>

theorem get_filters_raw_name_of_undecryptable_row:
  assumes "httpMethod ev = ''GET''"
    and "queryStringParameters ev = Some q" and "map_of q ''name'' = Some f" and "f \<noteq> []"
    and "list_all (\<lambda>it. is_string (fld it ''name'')) t"
  shows "handler cfg d ev t =
           (reply 200 (JArr (map json_of_item
              (filter (name_includes f) (map (\<lambda>it. decryptItem cfg (Some it)) t)))), t) \<and>
         (\<forall>r raw. r \<in> set t \<and> fld r ''name'' = JStr raw \<and>
             (isl (decrypt cfg (fld r ''name'')) \<or> isl (decrypt cfg (fld r ''stock'')) \<or>
              isl (decrypt cfg (fld r ''price''))) \<longrightarrow>
             (Some r \<in> set (filter (name_includes f) (map (\<lambda>it. decryptItem cfg (Some it)) t))
                \<longleftrightarrow> occurs_in f raw))"
proof -
  let ?items = "map (\<lambda>it. decryptItem cfg (Some it)) t"
  have kept: "filter_by_name f ?items = Inr (filter (name_includes f) ?items)"
    using filter_by_name_strings [OF decrypted_items_strings [OF assms(5)]] .
  have resp: "handler cfg d ev t = (reply 200 (JArr (map json_of_item
      (filter (name_includes f) ?items))), t)"
    using assms(1-4) kept
    by (simp add: handler_def handle_get_def param_def dynamo_scan_def)
  have raw: "Some r \<in> set (filter (name_includes f) ?items) \<longleftrightarrow> occurs_in f raw"
    if r: "r \<in> set t" and n: "fld r ''name'' = JStr raw"
      and fail: "isl (decrypt cfg (fld r ''name'')) \<or> isl (decrypt cfg (fld r ''stock'')) \<or>
                 isl (decrypt cfg (fld r ''price''))"
    for r raw
  proof -
    have same: "decryptItem cfg (Some r) = Some r" using decryptItem_raw [OF fail] .
    have mem: "Some r \<in> set ?items" using r same by force
    have "name_includes f (Some r) \<longleftrightarrow> occurs_in f raw"
      using n by (simp add: name_includes_def js_includes_def)
    then show ?thesis using mem by auto
  qed
  show ?thesis using resp raw by blast
qed

theorem get_filters_raw_name_of_undecryptable_row_witness:
  "httpMethod (get_event (js ''ff:a'')) = ''GET'' \<and>
   queryStringParameters (get_event (js ''ff:a'')) = Some [(''name'', (js ''ff:a''))] \<and>
   map_of [(''name'', (js ''ff:a''))] ''name'' = Some (js ''ff:a'') \<and> (js ''ff:a'') \<noteq> [] \<and>
   list_all (\<lambda>it. is_string (fld it ''name'')) [sample_corrupt_row, sample_legacy_row] \<and>
   sample_corrupt_row \<in> set [sample_corrupt_row, sample_legacy_row] \<and>
   fld sample_corrupt_row ''name'' = JStr (js ''00ff:abcd'') \<and>
   isl (decrypt sample_config (fld sample_corrupt_row ''name'')) \<and>
   occurs_in (js ''ff:a'') (js ''00ff:abcd'') \<and>
   handler sample_config sample_draws (get_event (js ''ff:a'')) [sample_corrupt_row, sample_legacy_row] =
     (reply 200 (JArr [JObj sample_corrupt_row]), [sample_corrupt_row, sample_legacy_row])"
proof -
  let ?t = "[sample_corrupt_row, sample_legacy_row]"
  have e: "httpMethod (get_event (js ''ff:a'')) = ''GET''"
    "queryStringParameters (get_event (js ''ff:a'')) = Some [(''name'', (js ''ff:a''))]"
    "map_of [(''name'', (js ''ff:a''))] ''name'' = Some (js ''ff:a'')" "(js ''ff:a'') \<noteq> []"
    by (simp_all add: get_event_def)
  have s: "list_all (\<lambda>it. is_string (fld it ''name'')) ?t"
    by (simp add: sample_corrupt_row_def sample_legacy_row_def fld_def)
  have n: "fld sample_corrupt_row ''name'' = JStr (js ''00ff:abcd'')"
    by (simp add: sample_corrupt_row_def fld_def)
  have f1: "isl (decrypt sample_config (fld sample_corrupt_row ''name''))"
    by code_simp
  have f2: "isl (decrypt sample_config (fld sample_legacy_row ''name''))"
    by code_simp
  have o: "occurs_in (js ''ff:a'') (js ''00ff:abcd'')" by code_simp
  have d1: "decryptItem sample_config (Some sample_corrupt_row) = Some sample_corrupt_row"
    using decryptItem_raw f1 by blast
  have d2: "decryptItem sample_config (Some sample_legacy_row) = Some sample_legacy_row"
    using decryptItem_raw f2 by blast
  have k1: "name_includes (js ''ff:a'') (Some sample_corrupt_row)"
    by code_simp
  have k2: "\<not> name_includes (js ''ff:a'') (Some sample_legacy_row)"
    by code_simp
  show ?thesis
    using get_filters_raw_name_of_undecryptable_row [OF e s, of sample_config sample_draws]
      e s n f1 o d1 d2 k1 k2
    by (simp add: json_of_item_def)
qed

section \<open>Rows at rest\<close>

























end
